theory Spec2Isabelle
  imports Main "HOL-Library.AList" "HOL-Library.Sublist"
begin

section \<open>Python values, exceptions and name resolution\<close>

text \<open>
  Strings are Python \<open>str\<close> values whose code points lie below 256 (one \<open>char\<close> per
  code point). Every exception the program can raise is a value of \<open>error\<close>; a function
  that can raise returns \<open>error + 'a\<close>, with \<open>Inl\<close> for the exception.
\<close>

datatype error =
    ApiError string
  | NameError string
  | IndexError
  | KeyError string
  | ValueError
  | UnboundLocalError string
  | FileNotFoundError string

datatype pyval = VStr string | VInt int

text \<open>
  The names bound at module level of \<open>main.py\<close>: its seven imports, its five function
  definitions and the variables the \<open>__main__\<close> block assigns. No Python builtin is
  called \<open>ApiError\<close>, so a name that is not in this list and not a local of the running
  function does not resolve.
\<close>

definition module_names :: "string list" where
  "module_names =
    [''requests'', ''time'', ''glob'', ''re'', ''json'', ''datetime'', ''pd'',
     ''read_bearer_token'', ''look_up_twitter_acount_id'',
     ''get_most_recent_tweets_account'', ''download_and_save_account_tweets'',
     ''extract_username_from_url'',
     ''df'', ''ALL_USERNAMES'', ''downloaded_usernames'', ''user'']"

text \<open>
  \<open>raise ApiError(msg)\<close>: the callee \<open>ApiError\<close> is looked up first; when the name is
  unbound the statement raises \<open>NameError\<close> and the message is never built.
\<close>

definition raise_ApiError :: "string \<Rightarrow> error" where
  "raise_ApiError msg =
    (if ''ApiError'' \<in> set module_names then ApiError msg else NameError ''ApiError'')"

subsection \<open>\<open>str(n)\<close> and \<open>int(v)\<close>\<close>

fun digits10 :: "nat \<Rightarrow> string" where
  "digits10 n =
    (if n < 10 then [char_of (48 + n)]
     else digits10 (n div 10) @ [char_of (48 + n mod 10)])"

declare digits10.simps [simp del]

definition py_str :: "int \<Rightarrow> string" where
  "py_str i = (if i < 0 then CHR ''-'' # digits10 (nat (- i)) else digits10 (nat i))"

definition is_digit :: "char \<Rightarrow> bool" where
  "is_digit c = (48 \<le> (of_char c :: nat) \<and> (of_char c :: nat) \<le> 57)"

text \<open>The characters \<open>int\<close> skips around a numeral, among the code points below 256.\<close>

definition int_space :: "char \<Rightarrow> bool" where
  "int_space c = ((of_char c :: nat) \<in> {9, 10, 11, 12, 13, 32, 133, 160})"

text \<open>
  Decimal digits, a single underscore allowed between two digits. \<open>prev\<close> says that the
  character before was a digit.
\<close>

fun int_digits :: "nat \<Rightarrow> bool \<Rightarrow> string \<Rightarrow> nat option" where
  "int_digits acc prev [] = (if prev then Some acc else None)"
| "int_digits acc prev (c # cs) =
    (if is_digit c then int_digits (10 * acc + (of_char c - 48)) True cs
     else if c = CHR ''_'' \<and> prev then
       (case cs of
          [] \<Rightarrow> None
        | d # _ \<Rightarrow> if is_digit d then int_digits acc False cs else None)
     else None)"

definition int_of_str :: "string \<Rightarrow> error + int" where
  "int_of_str s =
    (let t = rev (dropWhile int_space (rev (dropWhile int_space s)))
     in case t of
          [] \<Rightarrow> Inl ValueError
        | c # cs \<Rightarrow>
            if c = CHR ''-'' then
              (case int_digits 0 False cs of
                 None \<Rightarrow> Inl ValueError
               | Some n \<Rightarrow> Inr (- int n))
            else if c = CHR ''+'' then
              (case int_digits 0 False cs of
                 None \<Rightarrow> Inl ValueError
               | Some n \<Rightarrow> Inr (int n))
            else
              (case int_digits 0 False t of
                 None \<Rightarrow> Inl ValueError
               | Some n \<Rightarrow> Inr (int n)))"

fun py_int :: "pyval \<Rightarrow> error + int" where
  "py_int (VInt n) = Inr n"
| "py_int (VStr s) = int_of_str s"

declare py_int.simps [simp del]

section \<open>The world: network, clock, console and files\<close>

text \<open>
  A query-parameter dictionary is an association list in insertion order;
  \<open>AList.update\<close> is \<open>d[k] = v\<close> (an existing key keeps its place, a new one goes last)
  and \<open>map_of\<close> is the lookup.
\<close>

type_synonym params = "(string \<times> pyval) list"

record request =
  url :: string
  query :: params
  authorization :: string

record 'c response =
  status_code :: int
  content :: 'c

text \<open>
  The body of a timeline response after \<open>json.loads\<close>: \<open>page['meta']\<close> with its
  \<open>result_count\<close> and its optional \<open>next_token\<close>, and the optional \<open>page['data']\<close>.
\<close>

record meta =
  result_count :: int
  next_token :: "string option"

record 'r page =
  meta :: meta
  data :: "'r list option"

text \<open>
  The body of a user-lookup response: \<open>page['data']\<close>, when present, as the list of the
  \<open>'id'\<close> fields of its user objects.
\<close>

record user_page =
  user_ids :: "string list option"

text \<open>
  The two endpoints answer the \<open>n\<close>-th request this process sends (counted from 0 over
  \<open>sent\<close>) with the \<open>n\<close>-th element of a response sequence: one run of the program
  meets one such sequence, whatever the server computes it from. \<open>now\<close> is what
  \<open>datetime.datetime.now().strftime('%Y-%m-%d_%H:%M:%S')\<close> returns, \<open>files\<close> maps a path
  to the text of the file.
\<close>

record 'r world =
  tweets_api :: "nat \<Rightarrow> 'r page response"
  users_api :: "nat \<Rightarrow> user_page response"
  sent :: "request list"
  slept :: nat
  stdout :: "string list"
  files :: "(string \<times> string) list"
  now :: string

text \<open>The two pandas operations the program uses, taken as given.\<close>

record ('r, 'w) pandas =
  json_normalize :: "'r list \<Rightarrow> 'w list"
  to_csv :: "'w list \<Rightarrow> string"

definition print :: "string \<Rightarrow> 'r world \<Rightarrow> 'r world" where
  "print line w = w\<lparr>stdout := stdout w @ [line]\<rparr>"

definition time_sleep :: "nat \<Rightarrow> 'r world \<Rightarrow> 'r world" where
  "time_sleep n w = w\<lparr>slept := slept w + n\<rparr>"

text \<open>
  \<open>open(path, 'a').close()\<close>: an absent file is created empty, a present one is kept.
  The directory \<open>data\<close> is taken to exist, so that writing into it succeeds.
\<close>

definition touch :: "string \<Rightarrow> 'r world \<Rightarrow> 'r world" where
  "touch path w =
    (case map_of (files w) path of
       None \<Rightarrow> w\<lparr>files := files w @ [(path, [])]\<rparr>
     | Some _ \<Rightarrow> w)"

definition write_file :: "string \<Rightarrow> string \<Rightarrow> 'r world \<Rightarrow> 'r world" where
  "write_file path text w = w\<lparr>files := AList.update path text (files w)\<rparr>"

definition bearer_header :: "string \<Rightarrow> string" where
  "bearer_header BEARER_TOKEN = ''Bearer '' @ BEARER_TOKEN"

text \<open>\<open>s.get\<close> on the timeline endpoint and on the lookup endpoint.\<close>

definition get_tweets :: "request \<Rightarrow> 'r world \<Rightarrow> 'r page response \<times> 'r world" where
  "get_tweets rq w = (tweets_api w (length (sent w)), w\<lparr>sent := sent w @ [rq]\<rparr>)"

definition get_users :: "request \<Rightarrow> 'r world \<Rightarrow> user_page response \<times> 'r world" where
  "get_users rq w = (users_api w (length (sent w)), w\<lparr>sent := sent w @ [rq]\<rparr>)"

section \<open>\<open>get_most_recent_tweets_account\<close>\<close>

definition URL :: "string \<Rightarrow> string" where
  "URL ACCOUNT_ID = ''https://api.twitter.com/2/users/'' @ ACCOUNT_ID @ ''/tweets''"

text \<open>The local variables the loop changes, and the world.\<close>

record ('r, 'w) locals =
  request_count :: nat
  df :: "'w list option"
  PARAMS :: params
  world :: "'r world"

text \<open>How one pass through the loop body ends.\<close>

datatype 'w flow = Raise error | Return "'w list" | Break | Next

definition all_found :: "string \<Rightarrow> nat \<Rightarrow> string" where
  "all_found ACCOUNT_ID n =
    ''All tweets for '' @ ACCOUNT_ID @ '' found after '' @
    py_str (int n + 1) @ '' API calls.''"

definition loop_body ::
  "('r, 'w) pandas \<Rightarrow> string \<Rightarrow> string \<Rightarrow> bool \<Rightarrow> bool \<Rightarrow> string \<Rightarrow>
   ('r, 'w) locals \<Rightarrow> 'w flow \<times> ('r, 'w) locals" where
  "loop_body pd ACCOUNT_ID BEARER_TOKEN verbose save_file file_reference l =
    (let rq = \<lparr>url = URL ACCOUNT_ID, query = PARAMS l,
                authorization = bearer_header BEARER_TOKEN\<rparr>;
         req = fst (get_tweets rq (world l));
         w = time_sleep 1 (snd (get_tweets rq (world l)))
     in
       if status_code req \<noteq> 200 then
         (Raise (raise_ApiError
            (''There was an error sending request '' @ py_str (int (request_count l) + 1) @
             ''. Status code '' @ py_str (status_code req))),
          l\<lparr>world := w\<rparr>)
       else
         let page = content req in
         if result_count (meta page) = 0 \<and> request_count l = 0 then
           (let w1 = (if verbose then
                        print (''No results found for '' @ file_reference @
                               ''! Returning empty data frame.'') w
                      else w);
                w2 = (if save_file then
                        touch (''data/'' @ file_reference @ ''_2021_empty.csv'')
                          (print (''Note: Results will not be written to a timestamped '' @
                                  ''file but an empty file will be created for future '' @
                                  ''reference.'') w1)
                      else w1)
            in (Return [], l\<lparr>world := w2\<rparr>))
         else
           (case data page of
              None \<Rightarrow>
                (Break,
                 l\<lparr>world := (if verbose then print (all_found ACCOUNT_ID (request_count l)) w
                              else w)\<rparr>)
            | Some records \<Rightarrow>
                (case (if request_count l = 0 then Inr (json_normalize pd records)
                       else (case df l of
                               None \<Rightarrow> Inl (UnboundLocalError ''df'')
                             | Some d \<Rightarrow> Inr (d @ json_normalize pd records))) of
                   Inl e \<Rightarrow> (Raise e, l\<lparr>world := w\<rparr>)
                 | Inr d \<Rightarrow>
                     (case next_token (meta page) of
                        None \<Rightarrow>
                          (Break,
                           l\<lparr>df := Some d,
                             world := (if verbose
                                       then print (all_found ACCOUNT_ID (request_count l)) w
                                       else w)\<rparr>)
                      | Some NEXT_TOKEN \<Rightarrow>
                          (Next,
                           l\<lparr>request_count := request_count l + 1,
                             df := Some d,
                             PARAMS := AList.update ''pagination_token'' (VStr NEXT_TOKEN)
                                         (PARAMS l),
                             world := (if verbose
                                       then print (''Request '' @
                                                   py_str (int (request_count l) + 1) @
                                                   '' successful. Sleeping 1 second and '' @
                                                   ''paginating.'') w
                                       else w)\<rparr>)))))"

text \<open>
  \<open>while (request_count < 32)\<close>: the result is how the loop was left (\<open>Break\<close> also when
  the condition failed) and the locals at that point.
\<close>

function while_loop ::
  "('r, 'w) pandas \<Rightarrow> string \<Rightarrow> string \<Rightarrow> bool \<Rightarrow> bool \<Rightarrow> string \<Rightarrow>
   ('r, 'w) locals \<Rightarrow> 'w flow \<times> ('r, 'w) locals" where
  "while_loop pd ACCOUNT_ID BEARER_TOKEN verbose save_file file_reference l =
    (if request_count l < 32 then
       (case loop_body pd ACCOUNT_ID BEARER_TOKEN verbose save_file file_reference l of
          (Next, l') \<Rightarrow> while_loop pd ACCOUNT_ID BEARER_TOKEN verbose save_file file_reference l'
        | (ending, l') \<Rightarrow> (ending, l'))
     else (Break, l))"
  by pat_completeness auto
termination
  by (relation "measure (\<lambda>(pd, a, b, v, s, f, l). 32 - request_count l)")
     (auto simp: loop_body_def Let_def split: if_splits option.splits sum.splits)

declare while_loop.simps [simp del]

text \<open>The statements after the loop: the closing message, the timestamped file, \<open>return df\<close>.\<close>

definition save_and_return ::
  "('r, 'w) pandas \<Rightarrow> bool \<Rightarrow> bool \<Rightarrow> string \<Rightarrow> ('r, 'w) locals \<Rightarrow>
   (error + 'w list) \<times> params \<times> 'r world" where
  "save_and_return pd verbose save_file file_reference l =
    (let w1 = (if verbose then
                 print (''All most recent for account '' @ file_reference @
                        '' downloaded.'') (world l)
               else world l)
     in if save_file then
          (let fn = ''data/'' @ file_reference @ ''_'' @ now w1 @ ''.csv'';
               w2 = print (''Saving file to '' @ fn) w1
           in case df l of
                None \<Rightarrow> (Inl (UnboundLocalError ''df''), PARAMS l, w2)
              | Some d \<Rightarrow> (Inr d, PARAMS l, write_file fn (to_csv pd d) w2))
        else
          (case df l of
             None \<Rightarrow> (Inl (UnboundLocalError ''df''), PARAMS l, w1)
           | Some d \<Rightarrow> (Inr d, PARAMS l, w1)))"

definition get_most_recent_tweets_account ::
  "('r, 'w) pandas \<Rightarrow> string \<Rightarrow> string \<Rightarrow> params \<Rightarrow> bool \<Rightarrow> bool \<Rightarrow> string \<Rightarrow>
   'r world \<Rightarrow> (error + 'w list) \<times> params \<times> 'r world" where
  "get_most_recent_tweets_account pd ACCOUNT_ID BEARER_TOKEN PARAMS0 verbose save_file
     file_reference w0 =
    (if map_of PARAMS0 ''pagination_token'' \<noteq> None then
       (Inl (raise_ApiError (''The parsed query parameters included a pagination '' @
                             ''token. Check your PARAMS argument.'')), PARAMS0, w0)
     else
       (case (case map_of PARAMS0 ''max_results'' of
                None \<Rightarrow> Inr True
              | Some v \<Rightarrow> (case py_int v of Inl e \<Rightarrow> Inl e | Inr n \<Rightarrow> Inr (n \<noteq> 100))) of
          Inl e \<Rightarrow> (Inl e, PARAMS0, w0)
        | Inr True \<Rightarrow>
            (Inl (raise_ApiError (''Please ensure that you parse max_results: 100 to '' @
                                  ''your requests parameters.'')), PARAMS0, w0)
        | Inr False \<Rightarrow>
            (case while_loop pd ACCOUNT_ID BEARER_TOKEN verbose save_file file_reference
                    \<lparr>request_count = 0, df = None, PARAMS = PARAMS0, world = w0\<rparr> of
               (Raise e, l) \<Rightarrow> (Inl e, PARAMS l, world l)
             | (Return d, l) \<Rightarrow> (Inr d, PARAMS l, world l)
             | (_, l) \<Rightarrow> save_and_return pd verbose save_file file_reference l)))"

section \<open>\<open>look_up_twitter_acount_id\<close>\<close>

text \<open>
  The characters \<open>\w\<close> matches in a \<open>str\<close> pattern, among the code points below 256:
  the ASCII letters and digits, the underscore, and the Latin-1 letters and numerals.
\<close>

definition word_char :: "char \<Rightarrow> bool" where
  "word_char c =
    (let n = (of_char c :: nat)
     in (48 \<le> n \<and> n \<le> 57) \<or> (65 \<le> n \<and> n \<le> 90) \<or> n = 95 \<or> (97 \<le> n \<and> n \<le> 122) \<or>
        n = 170 \<or> n = 178 \<or> n = 179 \<or> n = 181 \<or> n = 185 \<or> n = 186 \<or>
        (188 \<le> n \<and> n \<le> 190) \<or> (192 \<le> n \<and> n \<le> 214) \<or> (216 \<le> n \<and> n \<le> 246) \<or>
        248 \<le> n)"

text \<open>
  \<open>re.match("^[\w\d_]*$", user_name)\<close> finds a match: \<open>$\<close> stands at the end of the
  string or before a newline that ends it.
\<close>

definition re_match_user_name :: "string \<Rightarrow> bool" where
  "re_match_user_name user_name =
    (list_all word_char user_name \<or>
     (user_name \<noteq> [] \<and> last user_name = CHR 0x0A \<and> list_all word_char (butlast user_name)))"

definition look_up_twitter_acount_id ::
  "string \<Rightarrow> string \<Rightarrow> 'r world \<Rightarrow> (error + string) \<times> 'r world" where
  "look_up_twitter_acount_id BEARER_TOKEN user_name0 w =
    (case user_name0 of
       [] \<Rightarrow> (Inl IndexError, w)
     | c # rest \<Rightarrow>
         (let user_name = (if c = CHR ''@'' then rest else user_name0)
          in if \<not> re_match_user_name user_name then
               (Inl (raise_ApiError ''The user name you requested seems to be malformed.''), w)
             else
               (let rq = \<lparr>url = ''https://api.twitter.com/2/users/by?usernames='' @ user_name,
                           query = [], authorization = bearer_header BEARER_TOKEN\<rparr>;
                    req = fst (get_users rq w);
                    w1 = time_sleep 3 (snd (get_users rq w))
                in if status_code req \<noteq> 200 then
                     (Inl (raise_ApiError (''There was an error sending the request. '' @
                                           ''Status code '' @ py_str (status_code req))), w1)
                   else
                     (case user_ids (content req) of
                        None \<Rightarrow> (Inl (KeyError ''data''), w1)
                      | Some [] \<Rightarrow> (Inl IndexError, w1)
                      | Some (twitter_id # _) \<Rightarrow> (Inr twitter_id, w1)))))"

section \<open>\<open>read_bearer_token\<close> and \<open>download_and_save_account_tweets\<close>\<close>

text \<open>The characters \<open>str.strip\<close> removes, among the code points below 256.\<close>

definition str_space :: "char \<Rightarrow> bool" where
  "str_space c =
    (let n = (of_char c :: nat) in (9 \<le> n \<and> n \<le> 13) \<or> (28 \<le> n \<and> n \<le> 32) \<or> n = 133 \<or> n = 160)"

definition strip :: "string \<Rightarrow> string" where
  "strip s = rev (dropWhile str_space (rev (dropWhile str_space s)))"

text \<open>
  The first line of the file, stripped. An absent file makes \<open>open\<close> fail; in an empty
  file the loop body never runs and \<open>BEARER_TOKEN\<close> stays unbound.
\<close>

definition read_bearer_token :: "string \<Rightarrow> 'r world \<Rightarrow> error + string" where
  "read_bearer_token file_path w =
    (case map_of (files w) file_path of
       None \<Rightarrow> Inl (FileNotFoundError file_path)
     | Some text \<Rightarrow>
         if text = [] then Inl (UnboundLocalError ''BEARER_TOKEN'')
         else Inr (strip (takeWhile (\<lambda>c. c \<noteq> CHR 0x0A \<and> c \<noteq> CHR 0x0D) text)))"

definition study_PARAMS :: params where
  "study_PARAMS =
    [(''max_results'', VStr ''100''),
     (''tweet.fields'',
      VStr (''attachments,author_id,context_annotations,conversation_id,'' @
            ''created_at,entities,geo,id,in_reply_to_user_id,lang,'' @
            ''public_metrics,'' @
            ''possibly_sensitive,referenced_tweets,'' @
            ''reply_settings,source,text,withheld'')),
     (''user.fields'',
      VStr (''created_at,description,entities,id,location,name,'' @
            ''pinned_tweet_id,profile_image_url,protected,public_metrics,'' @
            ''url,username,verified,withheld'')),
     (''expansions'',
      VStr (''attachments.poll_ids,attachments.media_keys,'' @
            ''author_id,entities.mentions.username,geo.place_id,'' @
            ''in_reply_to_user_id,referenced_tweets.id,'' @
            ''referenced_tweets.id.author_id'')),
     (''media.fields'',
      VStr (''duration_ms,height,media_key,preview_image_url,type,'' @
            ''url,width,'' @
            ''public_metrics,'' @
            ''alt_text'')),
     (''place.fields'',
      VStr (''contained_within,country,country_code,full_name,'' @
            ''geo,id,name,place_type'')),
     (''poll.fields'', VStr ''duration_minutes,end_datetime,id,options,voting_status'')]"

definition download_and_save_account_tweets ::
  "('r, 'w) pandas \<Rightarrow> string \<Rightarrow> string \<Rightarrow> bool \<Rightarrow> bool \<Rightarrow> 'r world \<Rightarrow>
   (error + 'w list) \<times> 'r world" where
  "download_and_save_account_tweets pd token_file_path user_name verbose save_file w =
    (case read_bearer_token token_file_path w of
       Inl e \<Rightarrow> (Inl e, w)
     | Inr BEARER_TOKEN \<Rightarrow>
         (case look_up_twitter_acount_id BEARER_TOKEN user_name w of
            (Inl e, w1) \<Rightarrow> (Inl e, w1)
          | (Inr TWITTER_USER_ID, w1) \<Rightarrow>
              (case get_most_recent_tweets_account pd TWITTER_USER_ID BEARER_TOKEN
                      study_PARAMS verbose save_file user_name w1 of
                 (result, _, w2) \<Rightarrow> (result, w2))))"

section \<open>\<open>extract_username_from_url\<close> and the batch driver\<close>

text \<open>
  \<open>s.split(sep)\<close> for a non-empty separator, scanning from the left; \<open>cur\<close> is the piece
  being read.
\<close>

function split_from :: "string \<Rightarrow> string \<Rightarrow> string \<Rightarrow> string list" where
  "split_from sep cur s =
    (if s = [] then [cur]
     else if sep \<noteq> [] \<and> prefix sep s then cur # split_from sep [] (drop (length sep) s)
     else split_from sep (cur @ [hd s]) (tl s))"
  by pat_completeness auto
termination
  by (relation "measure (\<lambda>(sep, cur, s). length s)") auto

declare split_from.simps [simp del]

definition split :: "string \<Rightarrow> string \<Rightarrow> string list" where
  "split s sep = split_from sep [] s"

definition PERMITTED_CHARS :: string where
  "PERMITTED_CHARS = ''0123456789abcdefghijklmnopqrstuvwxyzABCDEFGHIJKLMNOPQRSTUVWXYZ_''"

definition extract_username_from_url :: "string \<Rightarrow> string" where
  "extract_username_from_url text =
    (let text1 = last (split text ''twitter.com/'');
         text2 = hd (split text1 ''/'')
     in filter (\<lambda>char. char \<in> set PERMITTED_CHARS) text2)"

text \<open>\<open>pd.unique\<close>: the distinct values in the order of their first appearance.\<close>

fun unique_from :: "'a list \<Rightarrow> 'a list \<Rightarrow> 'a list" where
  "unique_from seen [] = []"
| "unique_from seen (x # xs) =
    (if x \<in> set seen then unique_from seen xs else x # unique_from (x # seen) xs)"

definition pd_unique :: "'a list \<Rightarrow> 'a list" where
  "pd_unique xs = unique_from [] xs"

text \<open>
  \<open>glob.glob('data/*.csv')\<close>: the files directly in \<open>data\<close> whose name ends in \<open>.csv\<close>
  and does not start with a dot.
\<close>

definition glob_data_csv :: "'r world \<Rightarrow> string list" where
  "glob_data_csv w =
    filter (\<lambda>p. prefix ''data/'' p \<and> CHR ''/'' \<notin> set (drop 5 p) \<and> suffix ''.csv'' (drop 5 p) \<and>
                hd (drop 5 p) \<noteq> CHR ''.'')
      (map fst (files w))"

text \<open>\<open>f.split('/')[1].split('_2021')[0]\<close>\<close>

definition reference_of :: "string \<Rightarrow> error + string" where
  "reference_of f =
    (case split f ''/'' of
       _ # name # _ \<Rightarrow> Inr (hd (split name ''_2021''))
     | _ \<Rightarrow> Inl IndexError)"

text \<open>\<open>list(map(g, xs))\<close> for a \<open>g\<close> that can raise: the first exception ends it.\<close>

fun map_raising :: "('a \<Rightarrow> error + 'b) \<Rightarrow> 'a list \<Rightarrow> error + 'b list" where
  "map_raising g [] = Inr []"
| "map_raising g (x # xs) =
    (case g x of
       Inl e \<Rightarrow> Inl e
     | Inr y \<Rightarrow> (case map_raising g xs of Inl e \<Rightarrow> Inl e | Inr ys \<Rightarrow> Inr (y # ys)))"

text \<open>
  The list the driver iterates over. \<open>links\<close> is the column \<open>df['link']\<close> of the input
  table.
\<close>

definition ALL_USERNAMES :: "string list \<Rightarrow> 'r world \<Rightarrow> error + string list" where
  "ALL_USERNAMES links w =
    (case map_raising reference_of (glob_data_csv w) of
       Inl e \<Rightarrow> Inl e
     | Inr downloaded_usernames \<Rightarrow>
         Inr (filter (\<lambda>u. u \<notin> set downloaded_usernames \<and> u \<noteq> [])
                (pd_unique (map extract_username_from_url links))))"

fun download_each ::
  "('r, 'w) pandas \<Rightarrow> string list \<Rightarrow> 'r world \<Rightarrow> (error + unit) \<times> 'r world" where
  "download_each pd [] w = (Inr (), w)"
| "download_each pd (user # users) w =
    (case download_and_save_account_tweets pd ''bearer_token.txt'' user True True
            (print ([CHR 0x0A] @ ''### Downloading '' @ user @ '' ...###'' @ [CHR 0x0A]) w) of
       (Inl e, w1) \<Rightarrow> (Inl e, w1)
     | (Inr _, w1) \<Rightarrow> download_each pd users w1)"

definition main ::
  "('r, 'w) pandas \<Rightarrow> string list \<Rightarrow> 'r world \<Rightarrow> (error + unit) \<times> 'r world" where
  "main pd links w =
    (case ALL_USERNAMES links w of
       Inl e \<Rightarrow> (Inl e, w)
     | Inr users \<Rightarrow>
         download_each pd users
           (print (''Downloading '' @ py_str (int (length users)) @ '' users...'') w))"

section \<open>Vocabulary for the properties\<close>

text \<open>
  \<open>received w i\<close> is the response to the \<open>(i+1)\<close>-th request sent from world \<open>w\<close> on:
  page \<open>k\<close> of a fetch that starts in \<open>w\<close> is \<open>content (received w (k - 1))\<close>.
\<close>

definition received :: "'r world \<Rightarrow> nat \<Rightarrow> 'r page response" where
  "received w i = tweets_api w (length (sent w) + i)"

text \<open>The rows one page contributes, and the rows of the first \<open>k\<close> pages in page order.\<close>

definition page_rows :: "('r, 'w) pandas \<Rightarrow> 'r page \<Rightarrow> 'w list" where
  "page_rows pd p = (case data p of None \<Rightarrow> [] | Some records \<Rightarrow> json_normalize pd records)"

definition rows_of_pages :: "('r, 'w) pandas \<Rightarrow> 'r world \<Rightarrow> nat \<Rightarrow> 'w list" where
  "rows_of_pages pd w k = concat (map (\<lambda>i. page_rows pd (content (received w i))) [0..<k])"

text \<open>A response after which the loop goes on: status 200, a record list, a token.\<close>

definition full_page :: "'r page response \<Rightarrow> bool" where
  "full_page r = (status_code r = 200 \<and> data (content r) \<noteq> None \<and>
                  next_token (meta (content r)) \<noteq> None)"

text \<open>
  The rows accumulated so far, and the loop invariant that \<open>df\<close> is assigned once a
  request has been counted.
\<close>

definition frame_rows :: "('r, 'w) locals \<Rightarrow> 'w list" where
  "frame_rows l = (if request_count l = 0 then [] else case df l of None \<Rightarrow> [] | Some d \<Rightarrow> d)"

definition df_bound :: "('r, 'w) locals \<Rightarrow> bool" where
  "df_bound l = (request_count l = 0 \<or> df l \<noteq> None)"

text \<open>The two checks at the start of \<open>get_most_recent_tweets_account\<close> pass.\<close>

definition valid_params :: "params \<Rightarrow> bool" where
  "valid_params P =
    (map_of P ''pagination_token'' = None \<and>
     (case map_of P ''max_results'' of None \<Rightarrow> False | Some v \<Rightarrow> py_int v = Inr 100))"

definition sentinel :: "string \<Rightarrow> string" where
  "sentinel file_reference = ''data/'' @ file_reference @ ''_2021_empty.csv''"

text \<open>
  The request the lookup sends for a user name; \<open>bare\<close> is the name without a leading
  \<open>@\<close>.
\<close>

definition lookup_url :: "string \<Rightarrow> string" where
  "lookup_url user_name = ''https://api.twitter.com/2/users/by?usernames='' @ user_name"

definition lookup_request :: "string \<Rightarrow> string \<Rightarrow> request" where
  "lookup_request BEARER_TOKEN user_name =
    \<lparr>url = lookup_url user_name, query = [], authorization = bearer_header BEARER_TOKEN\<rparr>"

definition bare :: "string \<Rightarrow> string" where
  "bare u = (if hd u = CHR ''@'' then tl u else u)"

text \<open>
  The references the driver reads off the files that \<open>glob\<close> returns: for \<open>data/name\<close>,
  the first piece of \<open>name\<close> split at \<open>_2021\<close>.
\<close>

definition downloaded :: "'r world \<Rightarrow> string list" where
  "downloaded w = map (\<lambda>p. hd (split (drop 5 p) ''_2021'')) (glob_data_csv w)"

section \<open>Example inputs\<close>

text \<open>
  Concrete inputs on which the theorems below are instantiated. Records and rows are
  numbers, \<open>json_normalize\<close> keeps each record as its row.
\<close>

definition demo_pandas :: "(nat, nat) pandas" where
  "demo_pandas =
    \<lparr>json_normalize = (\<lambda>records. records), to_csv = (\<lambda>rows. map (\<lambda>n. CHR ''x'') rows)\<rparr>"

definition demo_page :: "int \<Rightarrow> nat list option \<Rightarrow> string option \<Rightarrow> nat page response" where
  "demo_page n records token =
    \<lparr>status_code = 200,
     content = \<lparr>meta = \<lparr>result_count = n, next_token = token\<rparr>, data = records\<rparr>\<rparr>"

definition demo_world :: "(nat \<Rightarrow> nat page response) \<Rightarrow> nat world" where
  "demo_world api =
    \<lparr>tweets_api = api,
     users_api = (\<lambda>n. \<lparr>status_code = 200, content = \<lparr>user_ids = Some [''12'']\<rparr>\<rparr>),
     sent = [], slept = 0, stdout = [],
     files = [(''bearer_token.txt'', ''secret'' @ [CHR 0x0A])],
     now = ''2021-11-05_10:00:00''\<rparr>"

definition demo_PARAMS :: params where
  "demo_PARAMS = [(''max_results'', VStr ''100'')]"

text \<open>Response sequences of the timeline endpoint.\<close>

definition endless :: "nat \<Rightarrow> nat page response" where
  "endless n = demo_page 1 (Some [n]) (Some ''t'')"

definition empty_account :: "nat \<Rightarrow> nat page response" where
  "empty_account n = demo_page 0 None None"

definition three_pages :: "nat \<Rightarrow> nat page response" where
  "three_pages n =
    (if n = 0 then demo_page 2 (Some [10, 11]) (Some ''t1'')
     else if n = 1 then demo_page 1 (Some [20]) (Some ''t2'')
     else demo_page 2 (Some [30, 31]) None)"

definition meta_only :: "nat \<Rightarrow> nat page response" where
  "meta_only n = demo_page 3 None None"

definition then_meta_only :: "nat \<Rightarrow> nat page response" where
  "then_meta_only n =
    (if n = 0 then demo_page 2 (Some [10, 11]) (Some ''t1'') else demo_page 0 None None)"

definition token_without_rows :: "nat \<Rightarrow> nat page response" where
  "token_without_rows n = demo_page 0 None (Some ''t1'')"

definition then_rate_limited :: "nat \<Rightarrow> nat page response" where
  "then_rate_limited n =
    (if n = 0 then demo_page 2 (Some [10, 11]) (Some ''t1'')
     else \<lparr>status_code = 429, content = \<lparr>meta = \<lparr>result_count = 0, next_token = None\<rparr>,
                                         data = None\<rparr>\<rparr>)"

definition offline_world :: "nat world" where
  "offline_world =
    (demo_world then_rate_limited)
      \<lparr>users_api := (\<lambda>n. \<lparr>status_code = 503, content = \<lparr>user_ids = None\<rparr>\<rparr>)\<rparr>"

text \<open>An output directory with two files, and the link column of an input table.\<close>

definition driver_world :: "nat world" where
  "driver_world =
    (demo_world three_pages)
      \<lparr>files := [(''bearer_token.txt'', ''secret'' @ [CHR 0x0A]),
                 (''data/nhsuk_2021-11-05_10:00:00.csv'', ''id,text''),
                 (''data/empty_school_2021_empty.csv'', [])]\<rparr>"

definition demo_links :: "string list" where
  "demo_links =
    [''https://twitter.com/nhsuk'', ''https://twitter.com/NewSchool/status/1'', [],
     ''https://twitter.com/NewSchool'', ''https://twitter.com/empty_school/'']"

section \<open>The loop body and the loop\<close>

lemma loop_body_Next:
  "loop_body pd a b v s f l = (Next, l') \<Longrightarrow> request_count l' = request_count l + 1"
  by (auto simp: loop_body_def Let_def split: if_splits option.splits sum.splits)

lemma loop_body_sent:
  "sent (world (snd (loop_body pd a b v s f l))) =
     sent (world l) @ [\<lparr>url = URL a, query = PARAMS l, authorization = bearer_header b\<rparr>]"
  by (simp add: loop_body_def Let_def get_tweets_def time_sleep_def print_def touch_def
           split: option.splits sum.splits)

lemma loop_body_tweets_api:
  "tweets_api (world (snd (loop_body pd a b v s f l))) = tweets_api (world l)"
  by (simp add: loop_body_def Let_def get_tweets_def time_sleep_def print_def touch_def
           split: option.splits sum.splits)

lemma while_loop_sent_le:
  "length (sent (world (snd (while_loop pd a b v s f l))))
     \<le> length (sent (world l)) + (32 - request_count l)"
proof (induction pd a b v s f l rule: while_loop.induct)
  case (1 pd a b v s f l)
  show ?case
  proof (cases "request_count l < 32")
    case False
    then show ?thesis by (simp add: while_loop.simps)
  next
    case True
    obtain e l' where body: "loop_body pd a b v s f l = (e, l')"
      by (cases "loop_body pd a b v s f l")
    have sent': "length (sent (world l')) = length (sent (world l)) + 1"
      using loop_body_sent [of pd a b v s f l] body by simp
    show ?thesis
    proof (cases "e = Next")
      case True
      have rc: "request_count l' = request_count l + 1"
        using body True loop_body_Next by blast
      have "length (sent (world (snd (while_loop pd a b v s f l'))))
              \<le> length (sent (world l')) + (32 - request_count l')"
        using "1.IH" [OF \<open>request_count l < 32\<close> body [symmetric] True] .
      moreover have "while_loop pd a b v s f l = while_loop pd a b v s f l'"
        using \<open>request_count l < 32\<close> body True by (subst while_loop.simps) simp
      ultimately show ?thesis using rc sent' \<open>request_count l < 32\<close> by simp
    next
      case False
      have "while_loop pd a b v s f l = (e, l')"
        using \<open>request_count l < 32\<close> body False
        by (subst while_loop.simps) (cases e; simp)
      then show ?thesis using sent' \<open>request_count l < 32\<close> by simp
    qed
  qed
qed

lemma loop_body_files_now:
  "fst (loop_body pd a b v s f l) \<noteq> Return [] \<Longrightarrow>
     files (world (snd (loop_body pd a b v s f l))) = files (world l)"
  "now (world (snd (loop_body pd a b v s f l))) = now (world l)"
  by (auto simp: loop_body_def Let_def get_tweets_def time_sleep_def print_def touch_def
           split: option.splits sum.splits if_splits)

lemma loop_body_PARAMS_frame:
  "k \<noteq> ''pagination_token'' \<Longrightarrow>
     map_of (PARAMS (snd (loop_body pd a b v s f l))) k = map_of (PARAMS l) k"
  by (simp add: loop_body_def Let_def update_conv'
           split: option.splits sum.splits)

lemma loop_body_full:
  assumes "full_page (received (world l) 0)" "df_bound l"
    "request_count l = 0 \<longrightarrow> result_count (meta (content (received (world l) 0))) \<noteq> 0"
  shows "fst (loop_body pd a b v s f l) = Next"
    and "request_count (snd (loop_body pd a b v s f l)) = request_count l + 1"
    and "frame_rows (snd (loop_body pd a b v s f l)) =
           frame_rows l @ page_rows pd (content (received (world l) 0))"
    and "df_bound (snd (loop_body pd a b v s f l))"
    and "map_of (PARAMS (snd (loop_body pd a b v s f l))) ''pagination_token'' =
           map_option VStr (next_token (meta (content (received (world l) 0))))"
  using assms
  by (auto simp: loop_body_def Let_def get_tweets_def full_page_def received_def df_bound_def
        frame_rows_def page_rows_def update_conv'
        split: option.splits sum.splits)

lemma received_after_body:
  "received (world (snd (loop_body pd a b v s f l))) i = received (world l) (i + 1)"
  by (simp add: received_def loop_body_sent loop_body_tweets_api)

lemma while_loop_step:
  "request_count l < 32 \<Longrightarrow> fst (loop_body pd a b v s f l) = Next \<Longrightarrow>
     while_loop pd a b v s f l = while_loop pd a b v s f (snd (loop_body pd a b v s f l))"
  by (subst while_loop.simps) (simp add: case_prod_beta)

lemma while_loop_stop:
  "request_count l < 32 \<Longrightarrow> fst (loop_body pd a b v s f l) \<noteq> Next \<Longrightarrow>
     while_loop pd a b v s f l = loop_body pd a b v s f l"
  by (subst while_loop.simps, cases "loop_body pd a b v s f l", cases "fst (loop_body pd a b v s f l)")
     simp_all

lemma while_loop_ceiling:
  "\<not> request_count l < 32 \<Longrightarrow> while_loop pd a b v s f l = (Break, l)"
  by (subst while_loop.simps) simp

lemma rows_of_pages_Suc:
  "rows_of_pages pd w (Suc k) = rows_of_pages pd w k @ page_rows pd (content (received w k))"
  by (simp add: rows_of_pages_def)

lemma while_loop_full_pages:
  assumes "\<forall>i<k. full_page (received (world l) i)"
    and "request_count l + k \<le> 32"
    and "df_bound l"
    and "request_count l = 0 \<longrightarrow> k = 0 \<or> result_count (meta (content (received (world l) 0))) \<noteq> 0"
  shows "\<exists>l'. while_loop pd a b v s f l = while_loop pd a b v s f l' \<and>
           request_count l' = request_count l + k \<and> df_bound l' \<and>
           frame_rows l' = frame_rows l @ rows_of_pages pd (world l) k \<and>
           (\<forall>i. received (world l') i = received (world l) (k + i)) \<and>
           length (sent (world l')) = length (sent (world l)) + k \<and>
           files (world l') = files (world l) \<and> now (world l') = now (world l) \<and>
           (\<forall>key. key \<noteq> ''pagination_token'' \<longrightarrow> map_of (PARAMS l') key = map_of (PARAMS l) key) \<and>
           (if k = 0 then l' = l
            else map_of (PARAMS l') ''pagination_token'' =
                   map_option VStr (next_token (meta (content (received (world l) (k - 1))))))"
  using assms
proof (induction k)
  case 0
  then show ?case
    by (intro exI [of _ l]) (simp add: rows_of_pages_def)
next
  case (Suc k)
  from Suc.prems have "\<forall>i<k. full_page (received (world l) i)" "request_count l + k \<le> 32"
    "request_count l = 0 \<longrightarrow> k = 0 \<or> result_count (meta (content (received (world l) 0))) \<noteq> 0"
    by auto
  from Suc.IH [OF this(1,2) \<open>df_bound l\<close> this(3)]
  obtain l' where l':
    "while_loop pd a b v s f l = while_loop pd a b v s f l'"
    "request_count l' = request_count l + k" "df_bound l'"
    "frame_rows l' = frame_rows l @ rows_of_pages pd (world l) k"
    "\<forall>i. received (world l') i = received (world l) (k + i)"
    "length (sent (world l')) = length (sent (world l)) + k"
    "files (world l') = files (world l)" "now (world l') = now (world l)"
    "\<forall>key. key \<noteq> ''pagination_token'' \<longrightarrow> map_of (PARAMS l') key = map_of (PARAMS l) key"
    by blast
  let ?l'' = "snd (loop_body pd a b v s f l')"
  have r0: "received (world l') 0 = received (world l) k"
    using l'(5) by simp
  have full: "full_page (received (world l') 0)"
    using Suc.prems(1) r0 by simp
  have nz: "request_count l' = 0 \<longrightarrow> result_count (meta (content (received (world l') 0))) \<noteq> 0"
    using Suc.prems(4) l'(2) r0 by auto
  note body = loop_body_full [OF full \<open>df_bound l'\<close> nz, of pd a b v s f]
  have lt: "request_count l' < 32"
    using Suc.prems(2) l'(2) by simp
  have "while_loop pd a b v s f l = while_loop pd a b v s f ?l''"
    using l'(1) while_loop_step [OF lt body(1)] by simp
  moreover have "request_count ?l'' = request_count l + Suc k"
    using body(2) l'(2) by simp
  moreover have "frame_rows ?l'' = frame_rows l @ rows_of_pages pd (world l) (Suc k)"
    using body(3) l'(4) r0 by (simp add: rows_of_pages_Suc)
  moreover have "\<forall>i. received (world ?l'') i = received (world l) (Suc k + i)"
    using l'(5) by (simp add: received_after_body)
  moreover have "length (sent (world ?l'')) = length (sent (world l)) + Suc k"
    using l'(6) by (simp add: loop_body_sent)
  moreover have "files (world ?l'') = files (world l)"
    using loop_body_files_now(1) [of pd a b v s f l'] body(1) l'(7) by simp
  moreover have "now (world ?l'') = now (world l)"
    using l'(8) by (simp add: loop_body_files_now(2))
  moreover have "\<forall>key. key \<noteq> ''pagination_token'' \<longrightarrow>
      map_of (PARAMS ?l'') key = map_of (PARAMS l) key"
    using l'(9) by (simp add: loop_body_PARAMS_frame)
  moreover have "map_of (PARAMS ?l'') ''pagination_token'' =
      map_option VStr (next_token (meta (content (received (world l) k))))"
    using body(5) r0 by simp
  ultimately show ?case
    using body(4) by (intro exI [of _ ?l'']) simp
qed

section \<open>The request ceiling\<close>

lemma py_int_100: "py_int (VStr ''100'') = Inr 100"
  by code_simp

lemma gmrta_valid:
  "valid_params P \<Longrightarrow>
     get_most_recent_tweets_account pd a b P v s f w =
       (case while_loop pd a b v s f \<lparr>request_count = 0, df = None, PARAMS = P, world = w\<rparr> of
          (Raise e, l) \<Rightarrow> (Inl e, PARAMS l, world l)
        | (Return d, l) \<Rightarrow> (Inr d, PARAMS l, world l)
        | (_, l) \<Rightarrow> save_and_return pd v s f l)"
  by (auto simp: get_most_recent_tweets_account_def valid_params_def split: option.splits)

lemma gmrta_invalid:
  "\<not> valid_params P \<Longrightarrow>
     snd (get_most_recent_tweets_account pd a b P v s f w) = (P, w) \<and>
     isl (fst (get_most_recent_tweets_account pd a b P v s f w))"
  by (auto simp: get_most_recent_tweets_account_def valid_params_def
           split: option.splits sum.splits bool.splits)

lemma save_and_return_sent:
  "sent (snd (snd (save_and_return pd v s f l))) = sent (world l)"
  by (simp add: save_and_return_def Let_def print_def write_file_def split: option.splits)

lemma save_and_return_Some:
  "df l = Some d \<Longrightarrow> fst (save_and_return pd v s f l) = Inr d"
  "fst (snd (save_and_return pd v s f l)) = PARAMS l"
  by (simp_all add: save_and_return_def Let_def split: option.splits)

lemma gmrta_sent_le:
  "length (sent (snd (snd (get_most_recent_tweets_account pd a b P v s f w))))
     \<le> length (sent w) + 32"
proof (cases "valid_params P")
  case False
  then show ?thesis using gmrta_invalid [of P pd a b v s f w] by simp
next
  case True
  let ?l0 = "\<lparr>request_count = 0, df = None, PARAMS = P, world = w\<rparr> :: ('a, 'b) locals"
  obtain e l where wl: "while_loop pd a b v s f ?l0 = (e, l)"
    by (cases "while_loop pd a b v s f ?l0")
  have "length (sent (world l)) \<le> length (sent w) + 32"
    using while_loop_sent_le [of pd a b v s f ?l0] wl by simp
  then show ?thesis
    using True wl by (cases e) (simp_all add: gmrta_valid save_and_return_sent)
qed

lemma df_bound_frame_rows:
  "df_bound l \<Longrightarrow> 0 < request_count l \<Longrightarrow> df l = Some (frame_rows l)"
  by (auto simp: df_bound_def frame_rows_def)

text \<open>
  C2. Whatever the responses are, one call sends at most 32 requests. When all of the
  first 32 pages come back with status 200, a record list and a continuation token (the
  first with a non-zero result count), the loop ends at the ceiling and the call returns
  the rows of those 32 pages, with no exception.
\<close>

theorem request_ceiling:
  "length (sent (snd (snd (get_most_recent_tweets_account pd a b P v s f w))))
     \<le> length (sent w) + 32 \<and>
   (valid_params P \<and> (\<forall>i<32. full_page (received w i)) \<and>
    result_count (meta (content (received w 0))) \<noteq> 0 \<longrightarrow>
      fst (get_most_recent_tweets_account pd a b P v s f w) = Inr (rows_of_pages pd w 32) \<and>
      length (sent (snd (snd (get_most_recent_tweets_account pd a b P v s f w))))
        = length (sent w) + 32)"
proof (intro conjI impI)
  show "length (sent (snd (snd (get_most_recent_tweets_account pd a b P v s f w))))
     \<le> length (sent w) + 32"
    by (rule gmrta_sent_le)
next
  assume h: "valid_params P \<and> (\<forall>i<32. full_page (received w i)) \<and>
    result_count (meta (content (received w 0))) \<noteq> 0"
  let ?l0 = "\<lparr>request_count = 0, df = None, PARAMS = P, world = w\<rparr> :: ('a, 'b) locals"
  have "\<exists>l'. while_loop pd a b v s f ?l0 = while_loop pd a b v s f l' \<and>
           request_count l' = request_count ?l0 + 32 \<and> df_bound l' \<and>
           frame_rows l' = frame_rows ?l0 @ rows_of_pages pd (world ?l0) 32 \<and>
           (\<forall>i. received (world l') i = received (world ?l0) (32 + i)) \<and>
           length (sent (world l')) = length (sent (world ?l0)) + 32 \<and>
           files (world l') = files (world ?l0) \<and> now (world l') = now (world ?l0) \<and>
           (\<forall>key. key \<noteq> ''pagination_token'' \<longrightarrow> map_of (PARAMS l') key = map_of (PARAMS ?l0) key) \<and>
           (if (32::nat) = 0 then l' = ?l0
            else map_of (PARAMS l') ''pagination_token'' =
                   map_option VStr (next_token (meta (content (received (world ?l0) (32 - 1))))))"
    using h by (intro while_loop_full_pages) (simp_all add: df_bound_def)
  then obtain l' where l': "while_loop pd a b v s f ?l0 = while_loop pd a b v s f l'"
    "request_count l' = 32" "df_bound l'" "frame_rows l' = rows_of_pages pd w 32"
    "length (sent (world l')) = length (sent w) + 32"
    by (auto simp: frame_rows_def)
  have wl: "while_loop pd a b v s f ?l0 = (Break, l')"
    using l'(1,2) by (simp add: while_loop_ceiling)
  have dfl: "df l' = Some (rows_of_pages pd w 32)"
    using df_bound_frame_rows [OF l'(3)] l'(2,4) by simp
  have res: "get_most_recent_tweets_account pd a b P v s f w = save_and_return pd v s f l'"
    using h wl by (simp add: gmrta_valid)
  show "fst (get_most_recent_tweets_account pd a b P v s f w) = Inr (rows_of_pages pd w 32)"
    using res dfl by (simp add: save_and_return_Some)
  show "length (sent (snd (snd (get_most_recent_tweets_account pd a b P v s f w))))
        = length (sent w) + 32"
    using res l'(5) by (simp add: save_and_return_sent)
qed

lemma valid_demo_PARAMS: "valid_params demo_PARAMS"
  using py_int_100 by (simp add: valid_params_def demo_PARAMS_def)

lemma demo_world_simps:
  "received (demo_world api) i = api i"
  "files (demo_world api) = [(''bearer_token.txt'', ''secret'' @ [CHR 0x0A])]"
  "length (sent (demo_world api)) = 0"
  by (simp_all add: demo_world_def received_def)

theorem request_ceiling_witness:
  "fst (get_most_recent_tweets_account demo_pandas ''12'' ''secret'' demo_PARAMS False False
          ''nhsuk'' (demo_world endless)) = Inr [0..<32] \<and>
   length (sent (snd (snd (get_most_recent_tweets_account demo_pandas ''12'' ''secret''
          demo_PARAMS False False ''nhsuk'' (demo_world endless))))) = 32"
proof -
  have pages: "\<forall>i<32. full_page (received (demo_world endless) i)"
    by (simp add: full_page_def demo_world_simps endless_def demo_page_def)
  have first: "result_count (meta (content (received (demo_world endless) 0))) \<noteq> 0"
    by (simp add: demo_world_simps endless_def demo_page_def)
  have rows: "rows_of_pages demo_pandas (demo_world endless) 32 = [0..<32]"
    by (simp add: rows_of_pages_def page_rows_def demo_world_simps endless_def demo_page_def
          demo_pandas_def map_upt_eqI)
  show ?thesis
    using request_ceiling [of demo_pandas "''12''" "''secret''" demo_PARAMS False False
        "''nhsuk''" "demo_world endless"]
      valid_demo_PARAMS pages first
    by (simp only: rows demo_world_simps) simp
qed

section \<open>How the loop ends\<close>

lemma loop_body_empty_first:
  assumes "status_code (received (world l) 0) = 200"
    and "result_count (meta (content (received (world l) 0))) = 0"
    and "request_count l = 0"
  shows "fst (loop_body pd a b v s f l) = Return []"
    and "PARAMS (snd (loop_body pd a b v s f l)) = PARAMS l"
    and "files (world (snd (loop_body pd a b v s f l))) =
           (if s \<and> map_of (files (world l)) (sentinel f) = None
            then files (world l) @ [(sentinel f, [])] else files (world l))"
  using assms
  by (auto simp: loop_body_def Let_def get_tweets_def received_def time_sleep_def print_def
        touch_def sentinel_def split: option.splits)

lemma loop_body_no_data:
  assumes "status_code (received (world l) 0) = 200"
    and "data (content (received (world l) 0)) = None"
    and "request_count l = 0 \<longrightarrow> result_count (meta (content (received (world l) 0))) \<noteq> 0"
  shows "fst (loop_body pd a b v s f l) = Break"
    and "PARAMS (snd (loop_body pd a b v s f l)) = PARAMS l"
    and "df (snd (loop_body pd a b v s f l)) = df l"
    and "request_count (snd (loop_body pd a b v s f l)) = request_count l"
  using assms
  by (auto simp: loop_body_def Let_def get_tweets_def received_def)

lemma loop_body_last_page:
  assumes "status_code (received (world l) 0) = 200"
    and "data (content (received (world l) 0)) \<noteq> None"
    and "next_token (meta (content (received (world l) 0))) = None"
    and "request_count l = 0 \<longrightarrow> result_count (meta (content (received (world l) 0))) \<noteq> 0"
    and "df_bound l"
  shows "fst (loop_body pd a b v s f l) = Break"
    and "PARAMS (snd (loop_body pd a b v s f l)) = PARAMS l"
    and "df (snd (loop_body pd a b v s f l)) =
           Some (frame_rows l @ page_rows pd (content (received (world l) 0)))"
  using assms
  by (auto simp: loop_body_def Let_def get_tweets_def received_def df_bound_def frame_rows_def
        page_rows_def)

lemma loop_body_bad_status:
  assumes "status_code (received (world l) 0) \<noteq> 200"
  shows "fst (loop_body pd a b v s f l) =
           Raise (raise_ApiError (''There was an error sending request '' @
                    py_str (int (request_count l) + 1) @ ''. Status code '' @
                    py_str (status_code (received (world l) 0))))"
    and "PARAMS (snd (loop_body pd a b v s f l)) = PARAMS l"
  using assms
  by (auto simp: loop_body_def Let_def get_tweets_def received_def)

lemma save_and_return_files:
  "files (snd (snd (save_and_return pd v s f l))) =
     (if s \<and> df l \<noteq> None
      then AList.update (''data/'' @ f @ ''_'' @ now (world l) @ ''.csv'') (to_csv pd (the (df l)))
             (files (world l))
      else files (world l))"
  by (auto simp: save_and_return_def Let_def print_def write_file_def split: option.splits)

lemma save_and_return_None:
  "df l = None \<Longrightarrow> fst (save_and_return pd v s f l) = Inl (UnboundLocalError ''df'')"
  by (simp add: save_and_return_def Let_def)

lemma l0_simps:
  "received (world \<lparr>request_count = 0, df = None, PARAMS = P, world = w\<rparr>) i = received w i"
  "df_bound \<lparr>request_count = 0, df = None, PARAMS = P, world = w\<rparr>"
  "frame_rows \<lparr>request_count = 0, df = None, PARAMS = P, world = w\<rparr> = []"
  by (simp_all add: df_bound_def frame_rows_def)

text \<open>
  C3. When the first response has status 200 and result count 0, the call returns the
  empty frame after exactly one request. With \<open>save_file\<close> the only change to the
  files is the empty file \<open>data/{file_reference}_2021_empty.csv\<close>, created if it was
  absent; no timestamped file is written.
\<close>

theorem empty_first_page:
  assumes "valid_params P"
    and "status_code (received w 0) = 200"
    and "result_count (meta (content (received w 0))) = 0"
  shows "fst (get_most_recent_tweets_account pd a b P v s f w) = Inr [] \<and>
         length (sent (snd (snd (get_most_recent_tweets_account pd a b P v s f w))))
           = length (sent w) + 1 \<and>
         files (snd (snd (get_most_recent_tweets_account pd a b P v s f w))) =
           (if s \<and> map_of (files w) (''data/'' @ f @ ''_2021_empty.csv'') = None
            then files w @ [(''data/'' @ f @ ''_2021_empty.csv'', [])]
            else files w)"
proof -
  let ?l0 = "\<lparr>request_count = 0, df = None, PARAMS = P, world = w\<rparr> :: ('a, 'b) locals"
  let ?r = "loop_body pd a b v s f ?l0"
  note body = loop_body_empty_first [of ?l0 pd a b v s f, unfolded l0_simps, simplified, OF assms(2,3)]
  have "while_loop pd a b v s f ?l0 = ?r"
    using body(1) by (intro while_loop_stop) simp_all
  then have "while_loop pd a b v s f ?l0 = (Return [], snd ?r)"
    using body(1) by (metis prod.collapse)
  then have res: "get_most_recent_tweets_account pd a b P v s f w = (Inr [], PARAMS (snd ?r), world (snd ?r))"
    using assms(1) by (simp add: gmrta_valid)
  show ?thesis
    using res body(3) loop_body_sent [of pd a b v s f ?l0] by (simp add: sentinel_def)
qed

text \<open>
  C5. For \<open>1 \<le> k \<le> 32\<close>: when pages \<open>1..k-1\<close> carry a record list and a continuation
  token, page \<open>k\<close> carries a record list and no token, and the first result count is
  not 0, the call sends exactly \<open>k\<close> requests and returns the rows of pages \<open>1..k\<close>,
  page after page, each page's rows in the order \<open>json_normalize\<close> gives them.
\<close>

theorem last_page_without_token:
  assumes "1 \<le> k" and "k \<le> 32"
    and "valid_params P"
    and "\<forall>i<k - 1. full_page (received w i)"
    and "status_code (received w (k - 1)) = 200"
    and "data (content (received w (k - 1))) \<noteq> None"
    and "next_token (meta (content (received w (k - 1)))) = None"
    and "result_count (meta (content (received w 0))) \<noteq> 0"
  shows "fst (get_most_recent_tweets_account pd a b P v s f w) = Inr (rows_of_pages pd w k) \<and>
         length (sent (snd (snd (get_most_recent_tweets_account pd a b P v s f w))))
           = length (sent w) + k"
proof -
  let ?l0 = "\<lparr>request_count = 0, df = None, PARAMS = P, world = w\<rparr> :: ('a, 'b) locals"
  have "\<exists>l'. while_loop pd a b v s f ?l0 = while_loop pd a b v s f l' \<and>
           request_count l' = request_count ?l0 + (k - 1) \<and> df_bound l' \<and>
           frame_rows l' = frame_rows ?l0 @ rows_of_pages pd (world ?l0) (k - 1) \<and>
           (\<forall>i. received (world l') i = received (world ?l0) (k - 1 + i)) \<and>
           length (sent (world l')) = length (sent (world ?l0)) + (k - 1) \<and>
           files (world l') = files (world ?l0) \<and> now (world l') = now (world ?l0) \<and>
           (\<forall>key. key \<noteq> ''pagination_token'' \<longrightarrow> map_of (PARAMS l') key = map_of (PARAMS ?l0) key) \<and>
           (if k - 1 = 0 then l' = ?l0
            else map_of (PARAMS l') ''pagination_token'' =
                   map_option VStr (next_token (meta (content (received (world ?l0) (k - 1 - 1))))))"
    using assms by (intro while_loop_full_pages) (simp_all add: l0_simps)
  then obtain l' where l': "while_loop pd a b v s f ?l0 = while_loop pd a b v s f l'"
    "request_count l' = k - 1" "df_bound l'" "frame_rows l' = rows_of_pages pd w (k - 1)"
    "received (world l') 0 = received w (k - 1)"
    "length (sent (world l')) = length (sent w) + (k - 1)"
    by (auto simp: l0_simps)
  let ?r = "loop_body pd a b v s f l'"
  have nz: "request_count l' = 0 \<longrightarrow> result_count (meta (content (received (world l') 0))) \<noteq> 0"
    using assms(8) l'(2,5) by auto
  note body = loop_body_last_page [of l' pd a b v s f, unfolded l'(5), OF assms(5,6,7) nz [unfolded l'(5)] l'(3)]
  have lt: "request_count l' < 32"
    using l'(2) assms(1,2) by simp
  have "while_loop pd a b v s f ?l0 = ?r"
    using l'(1) while_loop_stop [OF lt, of pd a b v s f] body(1) by simp
  then have wl: "while_loop pd a b v s f ?l0 = (Break, snd ?r)"
    using body(1) by (metis prod.collapse)
  have rows: "frame_rows l' @ page_rows pd (content (received w (k - 1))) = rows_of_pages pd w k"
    using rows_of_pages_Suc [of pd w "k - 1"] assms(1) l'(4) by simp
  have res: "get_most_recent_tweets_account pd a b P v s f w = save_and_return pd v s f (snd ?r)"
    using assms(3) wl by (simp add: gmrta_valid)
  have "fst (get_most_recent_tweets_account pd a b P v s f w) = Inr (rows_of_pages pd w k)"
    using res body(3) rows by (simp add: save_and_return_Some)
  moreover have "length (sent (snd (snd (get_most_recent_tweets_account pd a b P v s f w))))
           = length (sent w) + k"
    using res l'(6) assms(1) by (simp add: save_and_return_sent loop_body_sent)
  ultimately show ?thesis by simp
qed

text \<open>
  C4. For \<open>1 \<le> k \<le> 32\<close>: when pages \<open>1..k-1\<close> carry a record list and a continuation
  token and page \<open>k\<close> has no record list (the first result count not being 0), the loop
  stops after \<open>k\<close> requests. For \<open>k \<ge> 2\<close> the call returns the rows of pages
  \<open>1..k-1\<close>; for \<open>k = 1\<close> the variable \<open>df\<close> was never assigned and the call raises
  \<open>UnboundLocalError\<close> instead of returning the empty frame.
\<close>

theorem page_without_data:
  assumes "1 \<le> k" and "k \<le> 32"
    and "valid_params P"
    and "\<forall>i<k - 1. full_page (received w i)"
    and "status_code (received w (k - 1)) = 200"
    and "data (content (received w (k - 1))) = None"
    and "result_count (meta (content (received w 0))) \<noteq> 0"
  shows "fst (get_most_recent_tweets_account pd a b P v s f w) =
           (if k = 1 then Inl (UnboundLocalError ''df'') else Inr (rows_of_pages pd w (k - 1))) \<and>
         length (sent (snd (snd (get_most_recent_tweets_account pd a b P v s f w))))
           = length (sent w) + k"
proof -
  let ?l0 = "\<lparr>request_count = 0, df = None, PARAMS = P, world = w\<rparr> :: ('a, 'b) locals"
  have "\<exists>l'. while_loop pd a b v s f ?l0 = while_loop pd a b v s f l' \<and>
           request_count l' = request_count ?l0 + (k - 1) \<and> df_bound l' \<and>
           frame_rows l' = frame_rows ?l0 @ rows_of_pages pd (world ?l0) (k - 1) \<and>
           (\<forall>i. received (world l') i = received (world ?l0) (k - 1 + i)) \<and>
           length (sent (world l')) = length (sent (world ?l0)) + (k - 1) \<and>
           files (world l') = files (world ?l0) \<and> now (world l') = now (world ?l0) \<and>
           (\<forall>key. key \<noteq> ''pagination_token'' \<longrightarrow> map_of (PARAMS l') key = map_of (PARAMS ?l0) key) \<and>
           (if k - 1 = 0 then l' = ?l0
            else map_of (PARAMS l') ''pagination_token'' =
                   map_option VStr (next_token (meta (content (received (world ?l0) (k - 1 - 1))))))"
    using assms by (intro while_loop_full_pages) (simp_all add: l0_simps)
  then obtain l' where l': "while_loop pd a b v s f ?l0 = while_loop pd a b v s f l'"
    "request_count l' = k - 1" "df_bound l'" "frame_rows l' = rows_of_pages pd w (k - 1)"
    "received (world l') 0 = received w (k - 1)"
    "length (sent (world l')) = length (sent w) + (k - 1)"
    "k - 1 = 0 \<longrightarrow> l' = ?l0"
    by (auto simp: l0_simps)
  let ?r = "loop_body pd a b v s f l'"
  have nz: "request_count l' = 0 \<longrightarrow> result_count (meta (content (received (world l') 0))) \<noteq> 0"
    using assms(7) l'(2,5) by auto
  note body = loop_body_no_data [of l' pd a b v s f, unfolded l'(5), OF assms(5,6) nz [unfolded l'(5)]]
  have lt: "request_count l' < 32"
    using l'(2) assms(1,2) by simp
  have "while_loop pd a b v s f ?l0 = ?r"
    using l'(1) while_loop_stop [OF lt, of pd a b v s f] body(1) by simp
  then have wl: "while_loop pd a b v s f ?l0 = (Break, snd ?r)"
    using body(1) by (metis prod.collapse)
  have res: "get_most_recent_tweets_account pd a b P v s f w = save_and_return pd v s f (snd ?r)"
    using assms(3) wl by (simp add: gmrta_valid)
  have sent: "length (sent (snd (snd (get_most_recent_tweets_account pd a b P v s f w))))
           = length (sent w) + k"
    using res l'(6) assms(1) by (simp add: save_and_return_sent loop_body_sent)
  show ?thesis
  proof (cases "k = 1")
    case False
    then have "df l' = Some (rows_of_pages pd w (k - 1))"
      using df_bound_frame_rows [OF l'(3)] l'(2,4) assms(1) by simp
    then show ?thesis
      using res body(3) sent False by (simp add: save_and_return_Some)
  next
    case True
    have "df l' = None"
      using l'(7) True by simp
    then show ?thesis
      using res body(3) sent True by (simp add: save_and_return_None)
  qed
qed

theorem empty_first_page_witness:
  "fst (get_most_recent_tweets_account demo_pandas ''12'' ''secret'' demo_PARAMS True True
          ''nhsuk'' (demo_world empty_account)) = Inr [] \<and>
   length (sent (snd (snd (get_most_recent_tweets_account demo_pandas ''12'' ''secret''
          demo_PARAMS True True ''nhsuk'' (demo_world empty_account))))) = 1 \<and>
   files (snd (snd (get_most_recent_tweets_account demo_pandas ''12'' ''secret''
          demo_PARAMS True True ''nhsuk'' (demo_world empty_account)))) =
     [(''bearer_token.txt'', ''secret'' @ [CHR 0x0A]), (''data/nhsuk_2021_empty.csv'', [])]"
proof -
  have "status_code (received (demo_world empty_account) 0) = 200"
    and "result_count (meta (content (received (demo_world empty_account) 0))) = 0"
    by (simp_all add: demo_world_simps empty_account_def demo_page_def)
  from empty_first_page [OF valid_demo_PARAMS this, of demo_pandas "''12''" "''secret''" True True
      "''nhsuk''"]
  show ?thesis
    by (simp add: demo_world_simps)
qed

lemma rows_three_pages: "rows_of_pages demo_pandas (demo_world three_pages) 3 = [10, 11, 20, 30, 31]"
  by (simp add: rows_of_pages_def page_rows_def demo_world_simps three_pages_def demo_page_def
        demo_pandas_def upt_rec numeral_3_eq_3)

theorem last_page_without_token_witness:
  "fst (get_most_recent_tweets_account demo_pandas ''12'' ''secret'' demo_PARAMS False False
          ''nhsuk'' (demo_world three_pages)) = Inr [10, 11, 20, 30, 31] \<and>
   length (sent (snd (snd (get_most_recent_tweets_account demo_pandas ''12'' ''secret''
          demo_PARAMS False False ''nhsuk'' (demo_world three_pages))))) = 3"
proof -
  have "\<forall>i<3 - 1. full_page (received (demo_world three_pages) i)"
    by (simp add: demo_world_simps three_pages_def demo_page_def full_page_def)
  moreover have "status_code (received (demo_world three_pages) (3 - 1)) = 200"
    and "data (content (received (demo_world three_pages) (3 - 1))) \<noteq> None"
    and "next_token (meta (content (received (demo_world three_pages) (3 - 1)))) = None"
    and "result_count (meta (content (received (demo_world three_pages) 0))) \<noteq> 0"
    by (simp_all add: demo_world_simps three_pages_def demo_page_def)
  ultimately show ?thesis
    using last_page_without_token [of 3 demo_PARAMS "demo_world three_pages" demo_pandas
        "''12''" "''secret''" False False "''nhsuk''"] valid_demo_PARAMS
    by (simp add: rows_three_pages demo_world_simps)
qed

theorem page_without_data_witness:
  "fst (get_most_recent_tweets_account demo_pandas ''12'' ''secret'' demo_PARAMS False False
          ''nhsuk'' (demo_world meta_only)) = Inl (UnboundLocalError ''df'') \<and>
   fst (get_most_recent_tweets_account demo_pandas ''12'' ''secret'' demo_PARAMS False False
          ''nhsuk'' (demo_world then_meta_only)) = Inr [10, 11]"
proof -
  have "fst (get_most_recent_tweets_account demo_pandas ''12'' ''secret'' demo_PARAMS False False
          ''nhsuk'' (demo_world meta_only)) = Inl (UnboundLocalError ''df'')"
    using page_without_data [of 1 demo_PARAMS "demo_world meta_only" demo_pandas
        "''12''" "''secret''" False False "''nhsuk''"] valid_demo_PARAMS
    by (simp add: demo_world_simps meta_only_def demo_page_def)
  moreover have "rows_of_pages demo_pandas (demo_world then_meta_only) 1 = [10, 11]"
    by (simp add: rows_of_pages_def page_rows_def demo_world_simps then_meta_only_def
          demo_page_def demo_pandas_def)
  then have "fst (get_most_recent_tweets_account demo_pandas ''12'' ''secret'' demo_PARAMS False
          False ''nhsuk'' (demo_world then_meta_only)) = Inr [10, 11]"
    using page_without_data [of 2 demo_PARAMS "demo_world then_meta_only" demo_pandas
        "''12''" "''secret''" False False "''nhsuk''"] valid_demo_PARAMS
    by (simp add: demo_world_simps then_meta_only_def demo_page_def full_page_def)
  ultimately show ?thesis by simp
qed

section \<open>The checks at the start of a call\<close>

lemma py_int_10: "py_int (VStr ''10'') = Inr 10"
  by code_simp

lemma py_int_abc: "py_int (VStr ''abc'') = Inl ValueError"
  by code_simp

lemma raise_ApiError_NameError: "raise_ApiError msg = NameError ''ApiError''"
  by (simp add: raise_ApiError_def module_names_def)

lemma int_of_str_cases: "int_of_str s = Inl ValueError \<or> (\<exists>n. int_of_str s = Inr n)"
  by (simp add: int_of_str_def Let_def split: list.split option.split)

lemma int_of_str_error: "int_of_str s = Inl e \<Longrightarrow> e = ValueError"
  using int_of_str_cases [of s] by auto

lemma py_int_error: "py_int x = Inl e \<Longrightarrow> e = ValueError"
  by (cases x) (auto simp: py_int.simps dest: int_of_str_error)

lemma gmrta_token_present:
  "map_of P ''pagination_token'' \<noteq> None \<Longrightarrow>
     get_most_recent_tweets_account pd a b P v s f w =
       (Inl (raise_ApiError (''The parsed query parameters included a pagination '' @
                             ''token. Check your PARAMS argument.'')), P, w)"
  by (simp add: get_most_recent_tweets_account_def)

lemma gmrta_max_results_absent:
  assumes "map_of P ''pagination_token'' = None"
    and "map_of P ''max_results'' = None"
  shows "get_most_recent_tweets_account pd a b P v s f w =
       (Inl (raise_ApiError (''Please ensure that you parse max_results: 100 to '' @
                             ''your requests parameters.'')), P, w)"
  using assms by (simp add: get_most_recent_tweets_account_def)

lemma gmrta_max_results_other:
  assumes "map_of P ''pagination_token'' = None"
    and "map_of P ''max_results'' = Some x" and "py_int x = Inr n" and "n \<noteq> 100"
  shows "get_most_recent_tweets_account pd a b P v s f w =
       (Inl (raise_ApiError (''Please ensure that you parse max_results: 100 to '' @
                             ''your requests parameters.'')), P, w)"
  using assms by (simp add: get_most_recent_tweets_account_def)

lemma gmrta_max_results_not_int:
  assumes "map_of P ''pagination_token'' = None"
    and "map_of P ''max_results'' = Some x" and "py_int x = Inl e"
  shows "get_most_recent_tweets_account pd a b P v s f w = (Inl ValueError, P, w)"
  using assms py_int_error [of x e] by (simp add: get_most_recent_tweets_account_def)

text \<open>
  C1. For every PARAMS that holds a \<open>pagination_token\<close> entry, or whose \<open>max_results\<close>
  entry is absent or not 100, the call raises before any request is sent and leaves
  PARAMS and the world as they were. The exception is never the documented
  \<open>ApiError\<close>: it is \<open>NameError\<close> for the unbound name \<open>ApiError\<close>, or the
  \<open>ValueError\<close> of \<open>int\<close> when \<open>max_results\<close> is not a numeral.
\<close>

theorem invalid_params_raise:
  assumes "\<not> valid_params P"
  shows "get_most_recent_tweets_account pd a b P v s f w =
           (Inl (if map_of P ''pagination_token'' = None \<and>
                    (case map_of P ''max_results'' of None \<Rightarrow> False | Some x \<Rightarrow> isl (py_int x))
                 then ValueError else NameError ''ApiError''), P, w)"
proof (cases "map_of P ''pagination_token'' = None")
  case False
  then show ?thesis
    by (simp add: gmrta_token_present raise_ApiError_NameError)
next
  case True
  show ?thesis
  proof (cases "map_of P ''max_results''")
    case None
    then show ?thesis
      using True by (simp add: gmrta_max_results_absent raise_ApiError_NameError)
  next
    case (Some x)
    show ?thesis
    proof (cases "py_int x")
      case (Inl e)
      then show ?thesis
        using True Some by (simp add: gmrta_max_results_not_int)
    next
      case (Inr n)
      then have "n \<noteq> 100"
        using assms True Some by (simp add: valid_params_def)
      then show ?thesis
        using True Some Inr by (simp add: gmrta_max_results_other raise_ApiError_NameError)
    qed
  qed
qed

theorem invalid_params_raise_witness:
  "get_most_recent_tweets_account demo_pandas ''12'' ''secret'' [(''max_results'', VStr ''10'')]
     True True ''nhsuk'' (demo_world three_pages) =
     (Inl (NameError ''ApiError''), [(''max_results'', VStr ''10'')], demo_world three_pages)"
proof -
  have "\<not> valid_params [(''max_results'', VStr ''10'')]"
    using py_int_10 by (simp add: valid_params_def del: py_int.simps)
  from invalid_params_raise [OF this, of demo_pandas "''12''" "''secret''" True True "''nhsuk''"
      "demo_world three_pages"]
  show ?thesis
    using py_int_10 by (simp del: py_int.simps)
qed

section \<open>PARAMS after a call\<close>

lemma loop_body_Next_iff:
  "fst (loop_body pd a b v s f l) = Next \<longleftrightarrow>
     full_page (received (world l) 0) \<and> df_bound l \<and>
     (request_count l = 0 \<longrightarrow> result_count (meta (content (received (world l) 0))) \<noteq> 0)"
  by (auto simp: loop_body_def Let_def get_tweets_def full_page_def received_def df_bound_def
        split: option.splits)

lemma loop_body_PARAMS_same:
  "fst (loop_body pd a b v s f l) \<noteq> Next \<Longrightarrow> PARAMS (snd (loop_body pd a b v s f l)) = PARAMS l"
  by (auto simp: loop_body_def Let_def split: option.splits if_splits)

lemma loop_body_token_kept:
  "map_of (PARAMS l) ''pagination_token'' \<noteq> None \<Longrightarrow>
     map_of (PARAMS (snd (loop_body pd a b v s f l))) ''pagination_token'' \<noteq> None"
  by (auto simp: loop_body_def Let_def update_conv' split: option.splits if_splits)

lemma while_loop_PARAMS:
  "(\<forall>key. key \<noteq> ''pagination_token'' \<longrightarrow>
      map_of (PARAMS (snd (while_loop pd a b v s f l))) key = map_of (PARAMS l) key) \<and>
   (map_of (PARAMS l) ''pagination_token'' \<noteq> None \<longrightarrow>
      map_of (PARAMS (snd (while_loop pd a b v s f l))) ''pagination_token'' \<noteq> None)"
proof (induction pd a b v s f l rule: while_loop.induct)
  case (1 pd a b v s f l)
  let ?r = "loop_body pd a b v s f l"
  show ?case
  proof (cases "request_count l < 32")
    case False
    then show ?thesis by (simp add: while_loop_ceiling)
  next
    case lt: True
    show ?thesis
    proof (cases "fst ?r = Next")
      case False
      then show ?thesis
        using lt by (simp add: while_loop_stop loop_body_PARAMS_same)
    next
      case True
      have "(\<forall>key. key \<noteq> ''pagination_token'' \<longrightarrow>
               map_of (PARAMS (snd (while_loop pd a b v s f (snd ?r)))) key
                 = map_of (PARAMS (snd ?r)) key) \<and>
            (map_of (PARAMS (snd ?r)) ''pagination_token'' \<noteq> None \<longrightarrow>
               map_of (PARAMS (snd (while_loop pd a b v s f (snd ?r)))) ''pagination_token'' \<noteq> None)"
        using "1.IH" [OF lt prod.collapse True] .
      then show ?thesis
        using lt True loop_body_token_kept [of l pd a b v s f]
        by (simp add: while_loop_step loop_body_PARAMS_frame)
    qed
  qed
qed

lemma gmrta_PARAMS:
  "valid_params P \<Longrightarrow>
     fst (snd (get_most_recent_tweets_account pd a b P v s f w)) =
       PARAMS (snd (while_loop pd a b v s f \<lparr>request_count = 0, df = None, PARAMS = P, world = w\<rparr>))"
  by (simp add: gmrta_valid save_and_return_Some(2) split: prod.splits flow.splits)

lemma gmrta_empty_first_eq:
  assumes "valid_params P"
    and "status_code (received w 0) = 200"
    and "result_count (meta (content (received w 0))) = 0"
  shows "get_most_recent_tweets_account pd a b P v s f w =
           (Inr [], P, world (snd (loop_body pd a b v s f
                                     \<lparr>request_count = 0, df = None, PARAMS = P, world = w\<rparr>)))"
proof -
  let ?l0 = "\<lparr>request_count = 0, df = None, PARAMS = P, world = w\<rparr> :: ('a, 'b) locals"
  let ?r = "loop_body pd a b v s f ?l0"
  note body = loop_body_empty_first [of ?l0 pd a b v s f, unfolded l0_simps, simplified, OF assms(2,3)]
  have "while_loop pd a b v s f ?l0 = ?r"
    using body(1) by (intro while_loop_stop) simp_all
  then have "while_loop pd a b v s f ?l0 = (Return [], snd ?r)"
    using body(1) by (metis prod.collapse)
  then show ?thesis
    using assms(1) body(2) by (simp add: gmrta_valid)
qed

text \<open>
  C9. The call changes no PARAMS entry other than \<open>pagination_token\<close>. That entry is in
  PARAMS afterwards (whether the call returns or raises) exactly when it was there
  before or the first page came back with status 200, a non-zero result count, a record
  list and a continuation token; and then any later call with that mapping fails the
  check at its start, before sending anything.
\<close>

theorem PARAMS_mutated_in_place:
  "(\<forall>key. key \<noteq> ''pagination_token'' \<longrightarrow>
      map_of (fst (snd (get_most_recent_tweets_account pd a b P v s f w))) key = map_of P key) \<and>
   ((map_of (fst (snd (get_most_recent_tweets_account pd a b P v s f w))) ''pagination_token''
       \<noteq> None) =
    (map_of P ''pagination_token'' \<noteq> None \<or>
     (valid_params P \<and> full_page (received w 0) \<and>
      result_count (meta (content (received w 0))) \<noteq> 0))) \<and>
   (map_of (fst (snd (get_most_recent_tweets_account pd a b P v s f w))) ''pagination_token''
       \<noteq> None \<longrightarrow>
    get_most_recent_tweets_account pd a2 b2
        (fst (snd (get_most_recent_tweets_account pd a b P v s f w))) v2 s2 f2 w2 =
      (Inl (raise_ApiError (''The parsed query parameters included a pagination '' @
                            ''token. Check your PARAMS argument.'')),
       fst (snd (get_most_recent_tweets_account pd a b P v s f w)), w2))"
proof (cases "valid_params P")
  case False
  then have "fst (snd (get_most_recent_tweets_account pd a b P v s f w)) = P"
    using gmrta_invalid [of P pd a b v s f w] by simp
  then show ?thesis
    using False by (simp add: gmrta_token_present)
next
  case True
  let ?l0 = "\<lparr>request_count = 0, df = None, PARAMS = P, world = w\<rparr> :: ('a, 'b) locals"
  let ?r = "loop_body pd a b v s f ?l0"
  let ?P' = "fst (snd (get_most_recent_tweets_account pd a b P v s f w))"
  have P': "?P' = PARAMS (snd (while_loop pd a b v s f ?l0))"
    using True by (rule gmrta_PARAMS)
  have none: "map_of P ''pagination_token'' = None"
    using True by (simp add: valid_params_def)
  have frame: "\<forall>key. key \<noteq> ''pagination_token'' \<longrightarrow> map_of ?P' key = map_of P key"
    using while_loop_PARAMS [of pd a b v s f ?l0] P' by simp
  have token: "(map_of ?P' ''pagination_token'' \<noteq> None) =
      (full_page (received w 0) \<and> result_count (meta (content (received w 0))) \<noteq> 0)"
  proof (cases "fst ?r = Next")
    case False
    then have "while_loop pd a b v s f ?l0 = ?r"
      by (intro while_loop_stop) simp_all
    then have "?P' = P"
      using P' loop_body_PARAMS_same [OF False] by simp
    then show ?thesis
      using False none by (simp add: loop_body_Next_iff l0_simps)
  next
    case Next: True
    then have full: "full_page (received w 0)"
      "result_count (meta (content (received w 0))) \<noteq> 0"
      by (simp_all add: loop_body_Next_iff l0_simps)
    have "map_of (PARAMS (snd ?r)) ''pagination_token'' =
        map_option VStr (next_token (meta (content (received w 0))))"
      using loop_body_full(5) [of ?l0 pd a b v s f] full by (simp add: l0_simps)
    then have "map_of (PARAMS (snd ?r)) ''pagination_token'' \<noteq> None"
      using full(1) by (simp add: full_page_def)
    moreover have "while_loop pd a b v s f ?l0 = while_loop pd a b v s f (snd ?r)"
      using Next by (intro while_loop_step) simp_all
    ultimately have "map_of ?P' ''pagination_token'' \<noteq> None"
      using while_loop_PARAMS [of pd a b v s f "snd ?r"] P' by simp
    then show ?thesis
      using full by simp
  qed
  show ?thesis
    using frame token True none by (simp add: gmrta_token_present)
qed

text \<open>
  A first page with result count 0 that carries a token: the page is fetched, the call
  returns the empty frame, and PARAMS holds no \<open>pagination_token\<close> afterwards.
\<close>

theorem PARAMS_token_counterexample:
  "status_code (received (demo_world token_without_rows) 0) = 200 \<and>
   next_token (meta (content (received (demo_world token_without_rows) 0))) = Some ''t1'' \<and>
   fst (get_most_recent_tweets_account demo_pandas ''12'' ''secret'' demo_PARAMS False False
          ''nhsuk'' (demo_world token_without_rows)) = Inr [] \<and>
   map_of (fst (snd (get_most_recent_tweets_account demo_pandas ''12'' ''secret'' demo_PARAMS
          False False ''nhsuk'' (demo_world token_without_rows)))) ''pagination_token'' = None"
proof -
  have page: "status_code (received (demo_world token_without_rows) 0) = 200"
    "result_count (meta (content (received (demo_world token_without_rows) 0))) = 0"
    "next_token (meta (content (received (demo_world token_without_rows) 0))) = Some ''t1''"
    by (simp_all add: demo_world_simps token_without_rows_def demo_page_def)
  show ?thesis
    using page(1,3)
      gmrta_empty_first_eq [OF valid_demo_PARAMS page(1,2), of demo_pandas "''12''" "''secret''"
        False False "''nhsuk''"]
    by (simp add: demo_PARAMS_def)
qed

theorem PARAMS_mutated_in_place_witness:
  "map_of (fst (snd (get_most_recent_tweets_account demo_pandas ''12'' ''secret'' demo_PARAMS
          False False ''nhsuk'' (demo_world three_pages)))) ''max_results'' = Some (VStr ''100'') \<and>
   map_of (fst (snd (get_most_recent_tweets_account demo_pandas ''12'' ''secret'' demo_PARAMS
          False False ''nhsuk'' (demo_world three_pages)))) ''pagination_token'' \<noteq> None \<and>
   get_most_recent_tweets_account demo_pandas ''12'' ''secret''
       (fst (snd (get_most_recent_tweets_account demo_pandas ''12'' ''secret'' demo_PARAMS
          False False ''nhsuk'' (demo_world three_pages)))) False False ''nhsuk''
       (demo_world three_pages) =
     (Inl (NameError ''ApiError''),
      fst (snd (get_most_recent_tweets_account demo_pandas ''12'' ''secret'' demo_PARAMS
          False False ''nhsuk'' (demo_world three_pages))),
      demo_world three_pages)"
proof -
  have "full_page (received (demo_world three_pages) 0)"
    and "result_count (meta (content (received (demo_world three_pages) 0))) \<noteq> 0"
    by (simp_all add: demo_world_simps three_pages_def demo_page_def full_page_def)
  then show ?thesis
    using PARAMS_mutated_in_place [of demo_pandas "''12''" "''secret''" demo_PARAMS False False
        "''nhsuk''" "demo_world three_pages" "''12''" "''secret''" False False "''nhsuk''"
        "demo_world three_pages"]
      valid_demo_PARAMS
    by (simp add: raise_ApiError_NameError demo_PARAMS_def)
qed

section \<open>The account lookup\<close>

lemma look_up_empty: "look_up_twitter_acount_id b [] w = (Inl IndexError, w)"
  by (simp add: look_up_twitter_acount_id_def)

lemma look_up_malformed:
  assumes "u \<noteq> []" and "\<not> re_match_user_name (if hd u = CHR ''@'' then tl u else u)"
  shows "look_up_twitter_acount_id b u w =
           (Inl (raise_ApiError ''The user name you requested seems to be malformed.''), w)"
  using assms by (cases u) (auto simp: look_up_twitter_acount_id_def)

lemma look_up_bad_status:
  assumes "u \<noteq> []" and "re_match_user_name (if hd u = CHR ''@'' then tl u else u)"
    and "status_code (users_api w (length (sent w))) \<noteq> 200"
  shows "fst (look_up_twitter_acount_id b u w) =
           Inl (raise_ApiError (''There was an error sending the request. '' @
                                ''Status code '' @ py_str (status_code (users_api w (length (sent w))))))"
  using assms by (cases u) (auto simp: look_up_twitter_acount_id_def Let_def get_users_def)

lemma look_up_well_formed:
  assumes "u \<noteq> []" and "re_match_user_name (if hd u = CHR ''@'' then tl u else u)"
  shows "sent (snd (look_up_twitter_acount_id b u w)) =
           sent w @ [lookup_request b (if hd u = CHR ''@'' then tl u else u)]"
  using assms
  by (cases u)
     (auto simp: look_up_twitter_acount_id_def Let_def get_users_def time_sleep_def
        lookup_request_def lookup_url_def split: option.splits list.splits)

lemma look_up_never_ApiError:
  "fst (look_up_twitter_acount_id b u w) \<noteq> Inl (ApiError m)"
  by (cases u)
     (simp_all add: look_up_twitter_acount_id_def Let_def raise_ApiError_NameError
        split: option.splits list.splits)

lemma word_char_at: "\<not> word_char (CHR ''@'')"
  by code_simp

text \<open>
  C6. For every non-empty handle \<open>h\<close> of letters, digits and underscores, the lookup of
  \<open>'@' + h\<close> is the lookup of \<open>h\<close>: the same request (for \<open>usernames=h\<close>) is sent, and
  the result and the world afterwards are the same.
\<close>

theorem at_sign_optional:
  assumes "h \<noteq> []" and "list_all word_char h"
  shows "look_up_twitter_acount_id b (CHR ''@'' # h) w = look_up_twitter_acount_id b h w \<and>
         sent (snd (look_up_twitter_acount_id b h w)) = sent w @ [lookup_request b h]"
proof -
  obtain c cs where h: "h = c # cs"
    using assms(1) by (cases h) auto
  have c: "c \<noteq> CHR ''@''"
    using assms(2) h word_char_at by auto
  have m: "re_match_user_name h"
    using assms(2) by (simp add: re_match_user_name_def)
  have "look_up_twitter_acount_id b (CHR ''@'' # h) w = look_up_twitter_acount_id b h w"
    using c by (simp add: look_up_twitter_acount_id_def h)
  moreover have "sent (snd (look_up_twitter_acount_id b h w)) = sent w @ [lookup_request b h]"
    using look_up_well_formed [of h b w] m c h by simp
  ultimately show ?thesis by simp
qed

lemma demo_lookup:
  "list_all word_char u \<Longrightarrow> u \<noteq> [] \<Longrightarrow>
     fst (look_up_twitter_acount_id b u (demo_world api)) = Inr ''12''"
  by (cases u)
     (auto simp: look_up_twitter_acount_id_def Let_def get_users_def demo_world_def
        re_match_user_name_def word_char_at)

theorem at_sign_optional_witness:
  "look_up_twitter_acount_id ''secret'' ''@foo_1'' (demo_world three_pages) =
     look_up_twitter_acount_id ''secret'' ''foo_1'' (demo_world three_pages) \<and>
   sent (snd (look_up_twitter_acount_id ''secret'' ''foo_1'' (demo_world three_pages))) =
     [lookup_request ''secret'' ''foo_1''] \<and>
   fst (look_up_twitter_acount_id ''secret'' ''foo_1'' (demo_world three_pages)) = Inr ''12''"
proof -
  have w: "list_all word_char ''foo_1''"
    by code_simp
  have "sent (demo_world three_pages) = []"
    by (simp add: demo_world_def)
  then show ?thesis
    using at_sign_optional [of "''foo_1''" "''secret''" "demo_world three_pages"] w
      demo_lookup [OF w, of "''secret''" three_pages]
    by simp
qed

text \<open>
  For the empty handle the two calls differ: \<open>'@'\<close> is looked up (as the empty user
  name), \<open>''\<close> raises \<open>IndexError\<close>.
\<close>

theorem at_sign_alone_counterexample:
  "fst (look_up_twitter_acount_id ''secret'' ''@'' (demo_world three_pages)) = Inr ''12'' \<and>
   fst (look_up_twitter_acount_id ''secret'' [] (demo_world three_pages)) = Inl IndexError"
  by (simp add: look_up_twitter_acount_id_def Let_def get_users_def demo_world_def
        re_match_user_name_def)

text \<open>
  C8. For the empty handle the lookup raises \<open>IndexError\<close> at \<open>user_name[0]\<close>, before the
  regular expression is tried and with nothing sent; the regular expression itself
  accepts the empty string, and the exception is not the one of the \<open>raise\<close> statement
  for a malformed name.
\<close>

theorem empty_handle_IndexError:
  "look_up_twitter_acount_id b [] w = (Inl IndexError, w) \<and>
   re_match_user_name [] \<and>
   (\<forall>msg. fst (look_up_twitter_acount_id b [] w) \<noteq> Inl (raise_ApiError msg))"
  by (simp add: look_up_empty re_match_user_name_def raise_ApiError_NameError)

section \<open>The exception of the \<open>raise\<close> statements\<close>

lemma loop_body_never_ApiError:
  "fst (loop_body pd a b v s f l) \<noteq> Raise (ApiError m)"
  by (auto simp: loop_body_def Let_def raise_ApiError_NameError split: option.splits)

lemma while_loop_never_ApiError:
  "fst (while_loop pd a b v s f l) \<noteq> Raise (ApiError m)"
proof (induction pd a b v s f l rule: while_loop.induct)
  case (1 pd a b v s f l)
  let ?r = "loop_body pd a b v s f l"
  show ?case
  proof (cases "request_count l < 32")
    case False
    then show ?thesis by (simp add: while_loop_ceiling)
  next
    case lt: True
    show ?thesis
    proof (cases "fst ?r = Next")
      case False
      then show ?thesis
        using lt by (simp add: while_loop_stop loop_body_never_ApiError)
    next
      case True
      then show ?thesis
        using "1.IH" [OF lt prod.collapse True] lt by (simp add: while_loop_step)
    qed
  qed
qed

lemma save_and_return_never_ApiError:
  "fst (save_and_return pd v s f l) \<noteq> Inl (ApiError m)"
  by (simp add: save_and_return_def Let_def split: option.splits)

lemma gmrta_never_ApiError:
  fixes pd :: "('r, 'w) pandas"
  shows "fst (get_most_recent_tweets_account pd a b P v s f w) \<noteq> Inl (ApiError m)"
proof (cases "valid_params P")
  case False
  have "map_of P ''pagination_token'' \<noteq> None \<or>
        map_of P ''max_results'' = None \<or>
        (\<exists>x. map_of P ''max_results'' = Some x \<and> py_int x \<noteq> Inr 100)"
    using False by (auto simp: valid_params_def split: option.splits)
  then show ?thesis
  proof (elim disjE exE conjE)
    assume "map_of P ''pagination_token'' \<noteq> None"
    then show ?thesis by (simp add: gmrta_token_present raise_ApiError_NameError)
  next
    assume "map_of P ''max_results'' = None"
    then show ?thesis
      by (cases "map_of P ''pagination_token'' = None")
         (simp_all add: gmrta_token_present gmrta_max_results_absent raise_ApiError_NameError)
  next
    fix x assume x: "map_of P ''max_results'' = Some x" "py_int x \<noteq> Inr 100"
    show ?thesis
    proof (cases "map_of P ''pagination_token'' = None")
      case False
      then show ?thesis by (simp add: gmrta_token_present raise_ApiError_NameError)
    next
      case True
      then show ?thesis
        using x
        by (cases "py_int x")
           (simp_all add: gmrta_max_results_not_int gmrta_max_results_other raise_ApiError_NameError)
    qed
  qed
next
  case True
  let ?l0 = "\<lparr>request_count = 0, df = None, PARAMS = P, world = w\<rparr> :: ('r, 'w) locals"
  obtain e l where wl: "while_loop pd a b v s f ?l0 = (e, l)"
    by (cases "while_loop pd a b v s f ?l0")
  then have "e \<noteq> Raise (ApiError m)"
    using while_loop_never_ApiError [of pd a b v s f ?l0 m] by simp
  then show ?thesis
    using True wl by (cases e) (simp_all add: gmrta_valid save_and_return_never_ApiError)
qed

lemma gmrta_bad_status:
  fixes pd :: "('r, 'w) pandas"
  assumes "valid_params P" and "k < 32"
    and "\<forall>i<k. full_page (received w i)"
    and "0 < k \<longrightarrow> result_count (meta (content (received w 0))) \<noteq> 0"
    and "status_code (received w k) \<noteq> 200"
  shows "fst (get_most_recent_tweets_account pd a b P v s f w) =
           Inl (raise_ApiError (''There was an error sending request '' @ py_str (int k + 1) @
                  ''. Status code '' @ py_str (status_code (received w k))))"
proof -
  let ?l0 = "\<lparr>request_count = 0, df = None, PARAMS = P, world = w\<rparr> :: ('r, 'w) locals"
  have "\<exists>l'. while_loop pd a b v s f ?l0 = while_loop pd a b v s f l' \<and>
           request_count l' = request_count ?l0 + k \<and> df_bound l' \<and>
           frame_rows l' = frame_rows ?l0 @ rows_of_pages pd (world ?l0) k \<and>
           (\<forall>i. received (world l') i = received (world ?l0) (k + i)) \<and>
           length (sent (world l')) = length (sent (world ?l0)) + k \<and>
           files (world l') = files (world ?l0) \<and> now (world l') = now (world ?l0) \<and>
           (\<forall>key. key \<noteq> ''pagination_token'' \<longrightarrow> map_of (PARAMS l') key = map_of (PARAMS ?l0) key) \<and>
           (if k = 0 then l' = ?l0
            else map_of (PARAMS l') ''pagination_token'' =
                   map_option VStr (next_token (meta (content (received (world ?l0) (k - 1))))))"
    using assms by (intro while_loop_full_pages) (auto simp: l0_simps)
  then obtain l' where l': "while_loop pd a b v s f ?l0 = while_loop pd a b v s f l'"
    "request_count l' = k" "received (world l') 0 = received w k"
    by (auto simp: l0_simps)
  let ?r = "loop_body pd a b v s f l'"
  note body = loop_body_bad_status [of l' pd a b v s f, unfolded l'(3), OF assms(5)]
  have "while_loop pd a b v s f ?l0 = ?r"
    using l'(1) while_loop_stop [of l' pd a b v s f] body(1) l'(2) assms(2) by simp
  then have "while_loop pd a b v s f ?l0 =
      (Raise (raise_ApiError (''There was an error sending request '' @ py_str (int k + 1) @
                  ''. Status code '' @ py_str (status_code (received w k)))), snd ?r)"
    using body(1) l'(2) by (metis prod.collapse)
  then show ?thesis
    using assms(1) by (simp add: gmrta_valid)
qed

text \<open>
  C10. Each of the five \<open>raise\<close> statements of the program names \<open>ApiError\<close>, which is
  bound nowhere in \<open>main.py\<close>: for a malformed handle, for a lookup answered with a
  status other than 200, for PARAMS with a \<open>pagination_token\<close>, for PARAMS whose
  \<open>max_results\<close> is absent or an integer other than 100, and for a timeline request
  answered with a status other than 200, the exception raised is \<open>NameError\<close> for that
  name. No call of the lookup or of the download ever raises an \<open>ApiError\<close> value.
\<close>

theorem every_raise_is_NameError:
  fixes pd :: "('r, 'w) pandas"
  shows
  "raise_ApiError msg = NameError ''ApiError'' \<and>
   (u \<noteq> [] \<and> \<not> re_match_user_name (if hd u = CHR ''@'' then tl u else u) \<longrightarrow>
      look_up_twitter_acount_id b u w = (Inl (NameError ''ApiError''), w)) \<and>
   (u \<noteq> [] \<and> re_match_user_name (if hd u = CHR ''@'' then tl u else u) \<and>
    status_code (users_api w (length (sent w))) \<noteq> 200 \<longrightarrow>
      fst (look_up_twitter_acount_id b u w) = Inl (NameError ''ApiError'')) \<and>
   (map_of P ''pagination_token'' \<noteq> None \<longrightarrow>
      get_most_recent_tweets_account pd a b P v s f w = (Inl (NameError ''ApiError''), P, w)) \<and>
   (map_of P ''pagination_token'' = None \<and> map_of P ''max_results'' = None \<longrightarrow>
      get_most_recent_tweets_account pd a b P v s f w = (Inl (NameError ''ApiError''), P, w)) \<and>
   (map_of P ''pagination_token'' = None \<and> map_of P ''max_results'' = Some x \<and>
    py_int x = Inr n \<and> n \<noteq> 100 \<longrightarrow>
      get_most_recent_tweets_account pd a b P v s f w = (Inl (NameError ''ApiError''), P, w)) \<and>
   (valid_params P \<and> k < 32 \<and> (\<forall>i<k. full_page (received w i)) \<and>
    (0 < k \<longrightarrow> result_count (meta (content (received w 0))) \<noteq> 0) \<and>
    status_code (received w k) \<noteq> 200 \<longrightarrow>
      fst (get_most_recent_tweets_account pd a b P v s f w) = Inl (NameError ''ApiError'')) \<and>
   (\<forall>m. fst (look_up_twitter_acount_id b u w) \<noteq> Inl (ApiError m)) \<and>
   (\<forall>m. fst (get_most_recent_tweets_account pd a b P v s f w) \<noteq> Inl (ApiError m))"
proof (intro conjI impI allI)
  show "raise_ApiError msg = NameError ''ApiError''"
    by (rule raise_ApiError_NameError)
next
  assume "u \<noteq> [] \<and> \<not> re_match_user_name (if hd u = CHR ''@'' then tl u else u)"
  then show "look_up_twitter_acount_id b u w = (Inl (NameError ''ApiError''), w)"
    using look_up_malformed [of u b w] by (simp add: raise_ApiError_NameError)
next
  assume "u \<noteq> [] \<and> re_match_user_name (if hd u = CHR ''@'' then tl u else u) \<and>
    status_code (users_api w (length (sent w))) \<noteq> 200"
  then show "fst (look_up_twitter_acount_id b u w) = Inl (NameError ''ApiError'')"
    using look_up_bad_status [of u w b] by (simp add: raise_ApiError_NameError)
next
  assume "map_of P ''pagination_token'' \<noteq> None"
  then show "get_most_recent_tweets_account pd a b P v s f w = (Inl (NameError ''ApiError''), P, w)"
    by (simp add: gmrta_token_present raise_ApiError_NameError)
next
  assume "map_of P ''pagination_token'' = None \<and> map_of P ''max_results'' = None"
  then show "get_most_recent_tweets_account pd a b P v s f w = (Inl (NameError ''ApiError''), P, w)"
    by (simp add: gmrta_max_results_absent raise_ApiError_NameError)
next
  assume "map_of P ''pagination_token'' = None \<and> map_of P ''max_results'' = Some x \<and>
    py_int x = Inr n \<and> n \<noteq> 100"
  then show "get_most_recent_tweets_account pd a b P v s f w = (Inl (NameError ''ApiError''), P, w)"
    using gmrta_max_results_other [of P x n pd a b v s f w] by (simp add: raise_ApiError_NameError)
next
  assume "valid_params P \<and> k < 32 \<and> (\<forall>i<k. full_page (received w i)) \<and>
    (0 < k \<longrightarrow> result_count (meta (content (received w 0))) \<noteq> 0) \<and>
    status_code (received w k) \<noteq> 200"
  then show "fst (get_most_recent_tweets_account pd a b P v s f w) = Inl (NameError ''ApiError'')"
    using gmrta_bad_status [of P k w pd a b v s f] by (simp add: raise_ApiError_NameError)
next
  fix m show "fst (look_up_twitter_acount_id b u w) \<noteq> Inl (ApiError m)"
    by (rule look_up_never_ApiError)
next
  fix m show "fst (get_most_recent_tweets_account pd a b P v s f w) \<noteq> Inl (ApiError m)"
    by (rule gmrta_never_ApiError)
qed

theorem every_raise_is_NameError_witness:
  "look_up_twitter_acount_id ''secret'' ''foo-bar!'' offline_world
     = (Inl (NameError ''ApiError''), offline_world) \<and>
   fst (look_up_twitter_acount_id ''secret'' ''@nhsuk'' offline_world)
     = Inl (NameError ''ApiError'') \<and>
   get_most_recent_tweets_account demo_pandas ''12'' ''secret''
       [(''max_results'', VStr ''100''), (''pagination_token'', VStr ''t9'')]
       True True ''nhsuk'' offline_world
     = (Inl (NameError ''ApiError''),
        [(''max_results'', VStr ''100''), (''pagination_token'', VStr ''t9'')], offline_world) \<and>
   get_most_recent_tweets_account demo_pandas ''12'' ''secret'' [] True True ''nhsuk''
       offline_world
     = (Inl (NameError ''ApiError''), [], offline_world) \<and>
   get_most_recent_tweets_account demo_pandas ''12'' ''secret'' [(''max_results'', VStr ''10'')]
       True True ''nhsuk'' offline_world
     = (Inl (NameError ''ApiError''), [(''max_results'', VStr ''10'')], offline_world) \<and>
   fst (get_most_recent_tweets_account demo_pandas ''12'' ''secret'' demo_PARAMS True True
          ''nhsuk'' offline_world)
     = Inl (NameError ''ApiError'')"
proof -
  have bad: "\<not> re_match_user_name ''foo-bar!''"
    by code_simp
  have good: "re_match_user_name ''nhsuk''"
    by code_simp
  have users: "status_code (users_api offline_world (length (sent offline_world))) \<noteq> 200"
    by (simp add: offline_world_def)
  have pages: "\<forall>i<1. full_page (received offline_world i)"
    "result_count (meta (content (received offline_world 0))) \<noteq> 0"
    "status_code (received offline_world 1) \<noteq> 200"
    by (simp_all add: offline_world_def demo_world_def received_def then_rate_limited_def
          demo_page_def full_page_def)
  note inst = every_raise_is_NameError [where pd = demo_pandas and a = "''12''" and b = "''secret''"
      and v = True and s = True and f = "''nhsuk''" and w = offline_world]
  have "look_up_twitter_acount_id ''secret'' ''foo-bar!'' offline_world
     = (Inl (NameError ''ApiError''), offline_world)"
    using inst [where u = "''foo-bar!''"] bad by simp
  moreover have "fst (look_up_twitter_acount_id ''secret'' ''@nhsuk'' offline_world)
     = Inl (NameError ''ApiError'')"
    using inst [where u = "''@nhsuk''"] good users by simp
  moreover have "get_most_recent_tweets_account demo_pandas ''12'' ''secret''
       [(''max_results'', VStr ''100''), (''pagination_token'', VStr ''t9'')]
       True True ''nhsuk'' offline_world
     = (Inl (NameError ''ApiError''),
        [(''max_results'', VStr ''100''), (''pagination_token'', VStr ''t9'')], offline_world)"
    using inst [where P = "[(''max_results'', VStr ''100''), (''pagination_token'', VStr ''t9'')]"]
    by simp
  moreover have "get_most_recent_tweets_account demo_pandas ''12'' ''secret'' [] True True
       ''nhsuk'' offline_world
     = (Inl (NameError ''ApiError''), [], offline_world)"
    using inst [where P = "[]"] by simp
  moreover have "get_most_recent_tweets_account demo_pandas ''12'' ''secret''
       [(''max_results'', VStr ''10'')] True True ''nhsuk'' offline_world
     = (Inl (NameError ''ApiError''), [(''max_results'', VStr ''10'')], offline_world)"
    using inst [where P = "[(''max_results'', VStr ''10'')]" and x = "VStr ''10''" and n = 10]
      py_int_10 by simp
  moreover have "fst (get_most_recent_tweets_account demo_pandas ''12'' ''secret'' demo_PARAMS
          True True ''nhsuk'' offline_world)
     = Inl (NameError ''ApiError'')"
    using inst [where P = demo_PARAMS and k = 1] valid_demo_PARAMS pages by simp
  ultimately show ?thesis by simp
qed

section \<open>The batch driver\<close>

lemma split_from_hd:
  "sep \<noteq> [] \<Longrightarrow> \<exists>t. split_from sep cur s \<noteq> [] \<and> hd (split_from sep cur s) = cur @ t \<and> prefix t s \<and>
       (\<forall>i<length t. \<not> prefix sep (drop i s)) \<and>
       (t = s \<or> prefix sep (drop (length t) s))"
proof (induction sep cur s rule: split_from.induct)
  case (1 sep cur s)
  note sep = \<open>sep \<noteq> []\<close>
  show ?case
  proof (cases "s = []")
    case True
    then show ?thesis
      by (subst (1 2) split_from.simps) simp
  next
    case ne: False
    show ?thesis
    proof (cases "sep \<noteq> [] \<and> prefix sep s")
      case True
      then show ?thesis
        using ne by (subst (1 2) split_from.simps) (auto intro: exI [of _ "[]"])
    next
      case False
      from "1.IH"(2) [OF ne False sep]
      obtain t where t: "split_from sep (cur @ [hd s]) (tl s) \<noteq> []"
        "hd (split_from sep (cur @ [hd s]) (tl s)) = (cur @ [hd s]) @ t" "prefix t (tl s)"
        "\<forall>i<length t. \<not> prefix sep (drop i (tl s))"
        "t = tl s \<or> prefix sep (drop (length t) (tl s))"
        by blast
      have eq: "split_from sep cur s = split_from sep (cur @ [hd s]) (tl s)"
        using ne False by (subst split_from.simps) auto
      have nopre: "\<not> prefix sep s"
        using False sep by simp
      have "\<forall>i<length (hd s # t). \<not> prefix sep (drop i s)"
      proof (intro allI impI)
        fix i assume i: "i < length (hd s # t)"
        show "\<not> prefix sep (drop i s)"
        proof (cases i)
          case 0
          then show ?thesis using nopre by simp
        next
          case (Suc j)
          then have "j < length t" using i by simp
          then have "\<not> prefix sep (drop j (tl s))" using t(4) by simp
          then show ?thesis using Suc by (simp add: drop_Suc)
        qed
      qed
      moreover have "prefix (hd s # t) s"
        using t(3) ne by (cases s) auto
      moreover have "hd s # t = s \<or> prefix sep (drop (length (hd s # t)) s)"
        using t(5) ne by (cases s) (auto simp: drop_Suc)
      ultimately show ?thesis
        using eq t(1,2) by (intro exI [of _ "hd s # t"]) simp
    qed
  qed
qed

lemma split_from_no_sep:
  "c \<notin> set s \<Longrightarrow> split_from [c] cur s = [cur @ s]"
proof (induction s arbitrary: cur)
  case Nil
  show ?case by (subst split_from.simps) simp
next
  case (Cons x xs)
  then show ?case by (subst split_from.simps) simp
qed

lemma split_data_path:
  assumes "CHR ''/'' \<notin> set name"
  shows "split (''data/'' @ name) ''/'' = [''data'', name]"
proof -
  have "split_from ''/'' [] (''data/'' @ name) = split_from ''/'' ''data'' (CHR ''/'' # name)"
    by (simp add: split_from.simps [of _ _ "_ # _"])
  also have "\<dots> = ''data'' # split_from ''/'' [] name"
    by (subst split_from.simps) simp
  also have "\<dots> = [''data'', name]"
    using split_from_no_sep [OF assms, of "[]"] by simp
  finally show ?thesis by (simp add: split_def)
qed

lemma glob_data_csv_form:
  "p \<in> set (glob_data_csv w) \<Longrightarrow>
     p = ''data/'' @ drop 5 p \<and> CHR ''/'' \<notin> set (drop 5 p) \<and> suffix ''.csv'' (drop 5 p) \<and>
     map_of (files w) p \<noteq> None"
  by (auto simp: glob_data_csv_def prefix_def weak_map_of_SomeI)

lemma reference_of_glob:
  assumes "p \<in> set (glob_data_csv w)"
  shows "reference_of p = Inr (hd (split (drop 5 p) ''_2021''))"
proof -
  have "split p ''/'' = [''data'', drop 5 p]"
    using glob_data_csv_form [OF assms] split_data_path [of "drop 5 p"] by simp
  then show ?thesis by (simp add: reference_of_def)
qed

lemma map_raising_total:
  "(\<And>x. x \<in> set xs \<Longrightarrow> g x = Inr (h x)) \<Longrightarrow> map_raising g xs = Inr (map h xs)"
  by (induction xs) simp_all

lemma ALL_USERNAMES_eq:
  "ALL_USERNAMES links w =
     Inr (filter (\<lambda>u. u \<notin> set (downloaded w) \<and> u \<noteq> [])
            (pd_unique (map extract_username_from_url links)))"
proof -
  have "map_raising reference_of (glob_data_csv w) = Inr (downloaded w)"
    unfolding downloaded_def by (rule map_raising_total) (rule reference_of_glob)
  then show ?thesis by (simp add: ALL_USERNAMES_def)
qed

lemma unique_from_set:
  "set (unique_from seen xs) = set xs - set seen \<and> distinct (unique_from seen xs)"
  by (induction xs arbitrary: seen) auto

lemma pd_unique_set: "set (pd_unique xs) = set xs" "distinct (pd_unique xs)"
  using unique_from_set [of "[]" xs] by (simp_all add: pd_unique_def)

lemma up_to_marker:
  "prefix (hd (split name ''_2021'')) name \<and>
   (\<forall>i<length (hd (split name ''_2021'')). \<not> prefix ''_2021'' (drop i name)) \<and>
   (hd (split name ''_2021'') = name \<or>
    prefix ''_2021'' (drop (length (hd (split name ''_2021''))) name))"
  using split_from_hd [of "''_2021''" "[]" name] by (auto simp: split_def)

lemma loop_body_PARAMS_nonempty:
  "PARAMS l \<noteq> [] \<Longrightarrow> PARAMS (snd (loop_body pd a b v s f l)) \<noteq> []"
  by (cases "PARAMS l")
     (auto simp: loop_body_def Let_def split: option.splits if_splits)

lemma while_loop_sent_queries:
  "PARAMS l \<noteq> [] \<Longrightarrow>
     \<exists>rs. sent (world (snd (while_loop pd a b v s f l))) = sent (world l) @ rs \<and>
          (\<forall>rq\<in>set rs. query rq \<noteq> [])"
proof (induction pd a b v s f l rule: while_loop.induct)
  case (1 pd a b v s f l)
  let ?r = "loop_body pd a b v s f l"
  let ?rq = "\<lparr>url = URL a, query = PARAMS l, authorization = bearer_header b\<rparr>"
  show ?case
  proof (cases "request_count l < 32")
    case False
    then show ?thesis by (simp add: while_loop_ceiling)
  next
    case lt: True
    show ?thesis
    proof (cases "fst ?r = Next")
      case False
      then have "sent (world (snd (while_loop pd a b v s f l))) = sent (world l) @ [?rq]"
        using lt by (simp add: while_loop_stop loop_body_sent)
      then show ?thesis
        using "1.prems" by (intro exI [of _ "[?rq]"]) simp
    next
      case True
      from "1.IH" [OF lt prod.collapse True loop_body_PARAMS_nonempty [OF "1.prems"]]
      obtain rs where rs:
        "sent (world (snd (while_loop pd a b v s f (snd ?r)))) = sent (world (snd ?r)) @ rs"
        "\<forall>rq\<in>set rs. query rq \<noteq> []"
        by blast
      have "sent (world (snd (while_loop pd a b v s f l))) = sent (world l) @ (?rq # rs)"
        using lt True rs(1) by (simp add: while_loop_step loop_body_sent)
      then show ?thesis
        using rs(2) "1.prems" by (intro exI [of _ "?rq # rs"]) simp
    qed
  qed
qed

lemma gmrta_sent_queries:
  fixes pd :: "('r, 'w) pandas"
  assumes "P \<noteq> []"
  shows "\<exists>rs. sent (snd (snd (get_most_recent_tweets_account pd a b P v s f w))) = sent w @ rs \<and>
          (\<forall>rq\<in>set rs. query rq \<noteq> [])"
proof (cases "valid_params P")
  case False
  then show ?thesis
    using gmrta_invalid [of P pd a b v s f w] by simp
next
  case True
  let ?l0 = "\<lparr>request_count = 0, df = None, PARAMS = P, world = w\<rparr> :: ('r, 'w) locals"
  obtain e l where wl: "while_loop pd a b v s f ?l0 = (e, l)"
    by (cases "while_loop pd a b v s f ?l0")
  have "sent (snd (snd (get_most_recent_tweets_account pd a b P v s f w))) = sent (world l)"
    using True wl by (cases e) (simp_all add: gmrta_valid save_and_return_sent)
  then show ?thesis
    using while_loop_sent_queries [of ?l0 pd a b v s f] wl assms by simp
qed

lemma look_up_sent:
  "sent (snd (look_up_twitter_acount_id b u w)) = sent w \<or>
   sent (snd (look_up_twitter_acount_id b u w)) =
     sent w @ [lookup_request b (bare u)]"
  by (cases u)
     (auto simp: look_up_twitter_acount_id_def Let_def get_users_def time_sleep_def bare_def
        lookup_request_def lookup_url_def split: option.splits list.splits)

lemma download_and_save_sent:
  fixes pd :: "('r, 'w) pandas"
  shows "\<exists>rs. sent (snd (download_and_save_account_tweets pd t u v s w)) = sent w @ rs \<and>
          (\<forall>rq\<in>set rs. query rq = [] \<longrightarrow> url rq = lookup_url (bare u))"
proof (cases "read_bearer_token t w")
  case (Inl e)
  then show ?thesis by (simp add: download_and_save_account_tweets_def)
next
  case (Inr b)
  obtain r w1 where lu: "look_up_twitter_acount_id b u w = (r, w1)"
    by (cases "look_up_twitter_acount_id b u w")
  obtain rs1 where rs1: "sent w1 = sent w @ rs1"
    "\<forall>rq\<in>set rs1. query rq = [] \<longrightarrow> url rq = lookup_url (bare u)"
    using look_up_sent [of b u w] lu by (auto simp: lookup_request_def)
  show ?thesis
  proof (cases r)
    case (Inl e)
    then show ?thesis
      using Inr lu rs1 by (auto simp: download_and_save_account_tweets_def)
  next
    case id: (Inr i)
    have "study_PARAMS \<noteq> []" by (simp add: study_PARAMS_def)
    from gmrta_sent_queries [OF this, of pd i b v s u w1]
    obtain rs2 where rs2:
      "sent (snd (snd (get_most_recent_tweets_account pd i b study_PARAMS v s u w1))) = sent w1 @ rs2"
      "\<forall>rq\<in>set rs2. query rq \<noteq> []"
      by blast
    have "sent (snd (download_and_save_account_tweets pd t u v s w)) = sent w @ (rs1 @ rs2)"
      using Inr lu id rs1(1) rs2(1)
      by (auto simp: download_and_save_account_tweets_def split: prod.splits)
    then show ?thesis
      using rs1(2) rs2(2) by (intro exI [of _ "rs1 @ rs2"]) auto
  qed
qed

lemma print_sent: "sent (print line w) = sent w"
  by (simp add: print_def)

lemma download_each_sent:
  fixes pd :: "('r, 'w) pandas"
  shows "\<exists>rs. sent (snd (download_each pd users w)) = sent w @ rs \<and>
          (\<forall>rq\<in>set rs. query rq = [] \<longrightarrow> (\<exists>u\<in>set users. url rq = lookup_url (bare u)))"
proof (induction users arbitrary: w)
  case Nil
  show ?case by simp
next
  case (Cons user users)
  let ?w0 = "print ([CHR 0x0A] @ ''### Downloading '' @ user @ '' ...###'' @ [CHR 0x0A]) w"
  obtain r w1 where d: "download_and_save_account_tweets pd ''bearer_token.txt'' user True True ?w0
      = (r, w1)"
    by (cases "download_and_save_account_tweets pd ''bearer_token.txt'' user True True ?w0")
  obtain rs1 where rs1: "sent w1 = sent w @ rs1"
    "\<forall>rq\<in>set rs1. query rq = [] \<longrightarrow> url rq = lookup_url (bare user)"
    using download_and_save_sent [of pd "''bearer_token.txt''" user True True ?w0] d
    by (auto simp: print_sent)
  show ?case
  proof (cases r)
    case (Inl e)
    then show ?thesis
      using d rs1 by (intro exI [of _ rs1]) auto
  next
    case (Inr x)
    from Cons.IH [of w1]
    obtain rs2 where rs2: "sent (snd (download_each pd users w1)) = sent w1 @ rs2"
      "\<forall>rq\<in>set rs2. query rq = [] \<longrightarrow> (\<exists>u\<in>set users. url rq = lookup_url (bare u))"
      by blast
    have "sent (snd (download_each pd (user # users) w)) = sent w @ (rs1 @ rs2)"
      using d Inr rs1(1) rs2(1) by simp
    then show ?thesis
      using rs1(2) rs2(2) by (intro exI [of _ "rs1 @ rs2"]) auto
  qed
qed

lemma demo_glob:
  "glob_data_csv driver_world =
     [''data/nhsuk_2021-11-05_10:00:00.csv'', ''data/empty_school_2021_empty.csv'']"
  unfolding driver_world_def by code_simp

lemma demo_downloaded: "downloaded driver_world = [''nhsuk'', ''empty_school'']"
  unfolding downloaded_def demo_glob by code_simp

lemma demo_extract:
  "map extract_username_from_url demo_links = [''nhsuk'', ''NewSchool'', [], ''NewSchool'', ''empty_school'']"
  by code_simp

lemma demo_ALL_USERNAMES: "ALL_USERNAMES demo_links driver_world = Inr [''NewSchool'']"
  unfolding ALL_USERNAMES_eq demo_downloaded demo_extract by code_simp

lemma at_not_permitted: "CHR ''@'' \<notin> set PERMITTED_CHARS"
  by code_simp

lemma extract_permitted:
  "set (extract_username_from_url text) \<subseteq> set PERMITTED_CHARS"
  by (auto simp: extract_username_from_url_def Let_def)

lemma bare_extract:
  assumes "u \<in> extract_username_from_url ` set links" and "u \<noteq> []"
  shows "bare u = u"
proof -
  have "set u \<subseteq> set PERMITTED_CHARS"
    using assms(1) extract_permitted by auto
  then have "hd u \<in> set PERMITTED_CHARS"
    using assms(2) hd_in_set [of u] by auto
  then show ?thesis
    using at_not_permitted by (auto simp: bare_def)
qed

text \<open>
  C7. The driver takes from each file \<open>data/name\<close> that \<open>glob\<close> returns the part of
  \<open>name\<close> before the first \<open>_2021\<close> (all of \<open>name\<close> when there is none); the list it then
  iterates over holds the extracted handles, each once, without the empty string and
  without any handle that is among those parts. The account lookups the driver sends
  are for handles of that list only, so none is sent for a handle already present.
\<close>

theorem skip_already_done:
  fixes pd :: "('r, 'w) pandas"
  shows
  "(\<forall>p\<in>set (glob_data_csv w).
      reference_of p = Inr (hd (split (drop 5 p) ''_2021'')) \<and>
      prefix (hd (split (drop 5 p) ''_2021'')) (drop 5 p) \<and>
      (\<forall>i<length (hd (split (drop 5 p) ''_2021'')). \<not> prefix ''_2021'' (drop i (drop 5 p))) \<and>
      (hd (split (drop 5 p) ''_2021'') = drop 5 p \<or>
       prefix ''_2021'' (drop (length (hd (split (drop 5 p) ''_2021''))) (drop 5 p)))) \<and>
   ALL_USERNAMES links w =
     Inr (filter (\<lambda>u. u \<notin> set (downloaded w) \<and> u \<noteq> [])
            (pd_unique (map extract_username_from_url links))) \<and>
   (\<forall>us. ALL_USERNAMES links w = Inr us \<longrightarrow>
      distinct us \<and>
      set us = extract_username_from_url ` set links - set (downloaded w) - {[]} \<and>
      main pd links w =
        download_each pd us
          (print (''Downloading '' @ py_str (int (length us)) @ '' users...'') w) \<and>
      (\<forall>rq\<in>set (drop (length (sent w)) (sent (snd (main pd links w)))).
         query rq = [] \<longrightarrow> (\<exists>u\<in>set us. url rq = lookup_url u)) \<and>
      (\<forall>h\<in>set (downloaded w).
         h \<notin> set us \<and>
         (\<forall>rq\<in>set (drop (length (sent w)) (sent (snd (main pd links w)))).
            query rq = [] \<longrightarrow> url rq \<noteq> lookup_url h)))"
proof (intro conjI ballI allI impI)
  fix p assume p: "p \<in> set (glob_data_csv w)"
  show "reference_of p = Inr (hd (split (drop 5 p) ''_2021''))"
    using p by (rule reference_of_glob)
  show "prefix (hd (split (drop 5 p) ''_2021'')) (drop 5 p)"
    using up_to_marker [of "drop 5 p"] by simp
  show "hd (split (drop 5 p) ''_2021'') = drop 5 p \<or>
       prefix ''_2021'' (drop (length (hd (split (drop 5 p) ''_2021''))) (drop 5 p))"
    using up_to_marker [of "drop 5 p"] by simp
  fix i assume "i < length (hd (split (drop 5 p) ''_2021''))"
  then show "\<not> prefix ''_2021'' (drop i (drop 5 p))"
    using up_to_marker [of "drop 5 p"] by simp
next
  show "ALL_USERNAMES links w =
     Inr (filter (\<lambda>u. u \<notin> set (downloaded w) \<and> u \<noteq> [])
            (pd_unique (map extract_username_from_url links)))"
    by (rule ALL_USERNAMES_eq)
next
  fix us assume "ALL_USERNAMES links w = Inr us"
  then have us: "us = filter (\<lambda>u. u \<notin> set (downloaded w) \<and> u \<noteq> [])
            (pd_unique (map extract_username_from_url links))"
    by (simp add: ALL_USERNAMES_eq)
  show d: "distinct us"
    using us by (simp add: pd_unique_set)
  show s: "set us = extract_username_from_url ` set links - set (downloaded w) - {[]}"
    using us by (auto simp: pd_unique_set)
  show m: "main pd links w =
        download_each pd us
          (print (''Downloading '' @ py_str (int (length us)) @ '' users...'') w)"
    using us by (simp add: main_def ALL_USERNAMES_eq)
  let ?w0 = "print (''Downloading '' @ py_str (int (length us)) @ '' users...'') w"
  obtain rs where rs: "sent (snd (download_each pd us ?w0)) = sent ?w0 @ rs"
    "\<forall>rq\<in>set rs. query rq = [] \<longrightarrow> (\<exists>u\<in>set us. url rq = lookup_url (bare u))"
    using download_each_sent [of pd us ?w0] by blast
  have new: "drop (length (sent w)) (sent (snd (main pd links w))) = rs"
    using rs(1) m by (simp add: print_sent)
  have bare: "\<And>u. u \<in> set us \<Longrightarrow> bare u = u"
    using s bare_extract [of _ links] by auto
  show l: "\<exists>u\<in>set us. url rq = lookup_url u"
    if "rq \<in> set (drop (length (sent w)) (sent (snd (main pd links w))))" "query rq = []" for rq
    using that rs(2) new bare by force
  show "h \<notin> set us" if "h \<in> set (downloaded w)" for h
    using that s by simp
  show "url rq \<noteq> lookup_url h"
    if h: "h \<in> set (downloaded w)"
      and rq: "rq \<in> set (drop (length (sent w)) (sent (snd (main pd links w))))"
      and q: "query rq = []" for h rq
  proof
    assume "url rq = lookup_url h"
    moreover obtain u where "u \<in> set us" "url rq = lookup_url u"
      using l [OF rq q] by blast
    ultimately have "h \<in> set us"
      by (simp add: lookup_url_def)
    then show False
      using h s by simp
  qed
qed

theorem skip_already_done_witness:
  "glob_data_csv driver_world =
     [''data/nhsuk_2021-11-05_10:00:00.csv'', ''data/empty_school_2021_empty.csv''] \<and>
   reference_of ''data/nhsuk_2021-11-05_10:00:00.csv'' = Inr ''nhsuk'' \<and>
   reference_of ''data/empty_school_2021_empty.csv'' = Inr ''empty_school'' \<and>
   ALL_USERNAMES demo_links driver_world = Inr [''NewSchool''] \<and>
   lookup_url ''nhsuk'' \<notin>
     url ` set (filter (\<lambda>rq. query rq = [])
                 (drop (length (sent driver_world))
                    (sent (snd (main demo_pandas demo_links driver_world))))) \<and>
   lookup_url ''empty_school'' \<notin>
     url ` set (filter (\<lambda>rq. query rq = [])
                 (drop (length (sent driver_world))
                    (sent (snd (main demo_pandas demo_links driver_world)))))"
proof -
  note inst = skip_already_done [of driver_world demo_links demo_pandas,
      THEN conjunct2, THEN conjunct2, rule_format, OF demo_ALL_USERNAMES]
  have refs: "reference_of ''data/nhsuk_2021-11-05_10:00:00.csv'' = Inr ''nhsuk''"
    "reference_of ''data/empty_school_2021_empty.csv'' = Inr ''empty_school''"
    by code_simp+
  have "\<forall>h\<in>set (downloaded driver_world).
         h \<notin> set [''NewSchool''] \<and>
         (\<forall>rq\<in>set (drop (length (sent driver_world))
                       (sent (snd (main demo_pandas demo_links driver_world)))).
            query rq = [] \<longrightarrow> url rq \<noteq> lookup_url h)"
    by (rule inst [THEN conjunct2, THEN conjunct2, THEN conjunct2, THEN conjunct2])
  then have "\<forall>rq\<in>set (drop (length (sent driver_world))
                 (sent (snd (main demo_pandas demo_links driver_world)))).
      query rq = [] \<longrightarrow> url rq \<noteq> lookup_url ''nhsuk'' \<and> url rq \<noteq> lookup_url ''empty_school''"
    unfolding demo_downloaded by simp
  then have "lookup_url ''nhsuk'' \<notin>
     url ` set (filter (\<lambda>rq. query rq = [])
                 (drop (length (sent driver_world))
                    (sent (snd (main demo_pandas demo_links driver_world)))))"
    and "lookup_url ''empty_school'' \<notin>
     url ` set (filter (\<lambda>rq. query rq = [])
                 (drop (length (sent driver_world))
                    (sent (snd (main demo_pandas demo_links driver_world)))))"
    by auto
  then show ?thesis
    using demo_glob refs demo_ALL_USERNAMES by simp
qed

end
